theory Spec2Isabelle
  imports Main "HOL-Library.Word" "HOL-Library.Sublist" "HOL-Library.List_Lexorder"
begin

section \<open>JavaScript strings\<close>

text \<open>
  A JavaScript string is a sequence of UTF-16 code units.  \<open>str\<close> embeds an ASCII literal
  of the source, such as the property name \<^verbatim>\<open>'title'\<close>.
\<close>

type_synonym jsstring = "16 word list"

definition str :: "string \<Rightarrow> jsstring" where
  "str s = map of_char s"

text \<open>
  \<^verbatim>\<open>String.prototype.trim\<close> strips the code units of the ECMAScript productions
  WhiteSpace and LineTerminator from both ends.
\<close>

definition is_ws :: "16 word \<Rightarrow> bool" where
  "is_ws c = (c \<in> {0x09, 0x0A, 0x0B, 0x0C, 0x0D, 0x20, 0xA0, 0x1680, 0x2028, 0x2029,
                    0x202F, 0x205F, 0x3000, 0xFEFF}
              \<or> (0x2000 \<le> c \<and> c \<le> 0x200A))"

definition trim :: "jsstring \<Rightarrow> jsstring" where
  "trim s = rev (dropWhile is_ws (rev (dropWhile is_ws s)))"

text \<open>\<^verbatim>\<open>s.includes(q)\<close>: \<open>q\<close> occurs in \<open>s\<close> as a contiguous run of code units.\<close>

fun includes_str :: "jsstring \<Rightarrow> jsstring \<Rightarrow> bool" where
  "includes_str [] q = (q = [])"
| "includes_str (c # s) q = (prefix q (c # s) \<or> includes_str s q)"

text \<open>\<^verbatim>\<open>s.slice(b, e)\<close> for non-negative \<open>b\<close> and \<open>e\<close>.\<close>

definition slice :: "nat \<Rightarrow> nat \<Rightarrow> jsstring \<Rightarrow> jsstring" where
  "slice b e s = take (e - b) (drop b s)"

text \<open>
  \<^verbatim>\<open>String.prototype.toLowerCase\<close> is a function of the platform (the Unicode case
  mapping); the program is modelled for an arbitrary \<open>lower :: jsstring \<Rightarrow> jsstring\<close>.
  \<open>ascii_lower\<close> is what that function does on strings of ASCII code units and serves
  in the concrete examples.
\<close>

definition ascii_lower :: "jsstring \<Rightarrow> jsstring" where
  "ascii_lower s = map (\<lambda>c. if 0x41 \<le> c \<and> c \<le> 0x5A then c + 0x20 else c) s"

text \<open>
  ISO-8601 timestamps as \<^verbatim>\<open>Date.prototype.toISOString\<close> writes them
  (\<^verbatim>\<open>YYYY-MM-DDTHH:mm:ss.sssZ\<close>, fixed width for the years 0000 to 9999) are ordered in
  time exactly as they are ordered lexicographically, which is the order \<open>\<le>\<close> on
  \<open>jsstring\<close>.
\<close>

definition ts_le :: "jsstring \<Rightarrow> jsstring \<Rightarrow> bool" where
  "ts_le a b = (a \<le> b)"


section \<open>JavaScript values\<close>

text \<open>
  The values that \<^verbatim>\<open>JSON.parse\<close> and the handlers of the program build.  A number
  is represented by its canonical rendering (\<^verbatim>\<open>Number::toString\<close>), which fixes an
  IEEE double up to the sign of zero; the program never computes with numbers.  An object
  is the list of its own properties in enumeration order.
\<close>

datatype jsval =
    JUndefined
  | JNull
  | JBool bool
  | JNum jsstring
  | JStr jsstring
  | JArr "jsval list"
  | JObj "(jsstring \<times> jsval) list"

datatype error = TypeError | SyntaxError | SecurityError | QuotaExceededError

text \<open>Truthiness, as in \<^verbatim>\<open>a || b\<close>, \<^verbatim>\<open>a ? b : c\<close> and \<^verbatim>\<open>if (a)\<close>.\<close>

fun truthy :: "jsval \<Rightarrow> bool" where
  "truthy JUndefined = False"
| "truthy JNull = False"
| "truthy (JBool b) = b"
| "truthy (JNum r) = (r \<noteq> str ''0'' \<and> r \<noteq> str ''NaN'')"
| "truthy (JStr s) = (s \<noteq> [])"
| "truthy (JArr xs) = True"
| "truthy (JObj kvs) = True"

text \<open>
  Strict equality \<^verbatim>\<open>===\<close>.  Objects and arrays are equal only to themselves as
  references; the program compares property values of parsed or freshly built notes with
  a string or with another property of the same note, which are never one reference.
\<close>

fun strict_eq :: "jsval \<Rightarrow> jsval \<Rightarrow> bool" where
  "strict_eq JUndefined JUndefined = True"
| "strict_eq JNull JNull = True"
| "strict_eq (JBool a) (JBool b) = (a = b)"
| "strict_eq (JNum a) (JNum b) = (a = b \<and> a \<noteq> str ''NaN'')"
| "strict_eq (JStr a) (JStr b) = (a = b)"
| "strict_eq _ _ = False"

text \<open>
  Reading one of the properties \<^verbatim>\<open>id\<close>, \<^verbatim>\<open>title\<close>, \<^verbatim>\<open>content\<close>, \<^verbatim>\<open>createdAt\<close>,
  \<^verbatim>\<open>updatedAt\<close> (none of them is built into strings, arrays, numbers or booleans):
  \<^verbatim>\<open>null\<close> and \<^verbatim>\<open>undefined\<close> throw, an object yields its own property, everything
  else yields \<^verbatim>\<open>undefined\<close>.
\<close>

fun get_prop :: "jsval \<Rightarrow> jsstring \<Rightarrow> error + jsval" where
  "get_prop JUndefined k = Inl TypeError"
| "get_prop JNull k = Inl TypeError"
| "get_prop (JObj kvs) k = Inr (case map_of kvs k of None \<Rightarrow> JUndefined | Some v \<Rightarrow> v)"
| "get_prop v k = Inr JUndefined"

text \<open>Writing a property: an existing key keeps its place, a new key goes last.\<close>

fun set_prop :: "jsstring \<Rightarrow> jsval \<Rightarrow> (jsstring \<times> jsval) list \<Rightarrow> (jsstring \<times> jsval) list" where
  "set_prop k v [] = [(k, v)]"
| "set_prop k v ((k', v') # kvs) = (if k' = k then (k, v) # kvs else (k', v') # set_prop k v kvs)"

text \<open>\<^verbatim>\<open>v.toLowerCase()\<close>: only a string has the method.\<close>

fun toLowerCase :: "(jsstring \<Rightarrow> jsstring) \<Rightarrow> jsval \<Rightarrow> error + jsstring" where
  "toLowerCase lower (JStr s) = Inr (lower s)"
| "toLowerCase lower v = Inl TypeError"

text \<open>String conversion inside a template literal.\<close>

fun to_string :: "jsval \<Rightarrow> jsstring" and join_elems :: "jsval list \<Rightarrow> jsstring" where
  "to_string JUndefined = str ''undefined''"
| "to_string JNull = str ''null''"
| "to_string (JBool b) = (if b then str ''true'' else str ''false'')"
| "to_string (JNum r) = r"
| "to_string (JStr s) = s"
| "to_string (JArr xs) = join_elems xs"
| "to_string (JObj kvs) = str ''[object Object]''"
| "join_elems [] = []"
| "join_elems (x # xs) =
     (case x of JUndefined \<Rightarrow> [] | JNull \<Rightarrow> [] | _ \<Rightarrow> to_string x)
     @ (if xs = [] then [] else str '','' @ join_elems xs)"

text \<open>
  \<^verbatim>\<open>Array.prototype.map\<close>, \<^verbatim>\<open>filter\<close> and \<^verbatim>\<open>find\<close> with a callback that may throw:
  the elements are visited from the left and the first exception ends the call.
\<close>

fun map_err :: "('a \<Rightarrow> error + 'b) \<Rightarrow> 'a list \<Rightarrow> error + 'b list" where
  "map_err f [] = Inr []"
| "map_err f (x # xs) =
     (case f x of Inl e \<Rightarrow> Inl e
      | Inr y \<Rightarrow> (case map_err f xs of Inl e \<Rightarrow> Inl e | Inr ys \<Rightarrow> Inr (y # ys)))"

fun filter_err :: "('a \<Rightarrow> error + bool) \<Rightarrow> 'a list \<Rightarrow> error + 'a list" where
  "filter_err p [] = Inr []"
| "filter_err p (x # xs) =
     (case p x of Inl e \<Rightarrow> Inl e
      | Inr b \<Rightarrow> (case filter_err p xs of Inl e \<Rightarrow> Inl e
                 | Inr ys \<Rightarrow> Inr (if b then x # ys else ys)))"

fun find_err :: "('a \<Rightarrow> error + bool) \<Rightarrow> 'a list \<Rightarrow> error + 'a option" where
  "find_err p [] = Inr None"
| "find_err p (x # xs) =
     (case p x of Inl e \<Rightarrow> Inl e | Inr b \<Rightarrow> if b then Inr (Some x) else find_err p xs)"


section \<open>JSON\<close>

text \<open>
  \<^verbatim>\<open>JSON.parse\<close> and \<^verbatim>\<open>JSON.stringify\<close> are functions of the platform.  What follows is
  their behaviour after ECMA-262 and ECMA-404 on the values above, as far as it can be
  said without floating point: the conversion of a number literal to a Number is left
  to the parameter \<open>num\<close>, which maps the literal to the canonical rendering.
\<close>

subsection \<open>Parsing\<close>

text \<open>JSON white space is tab, line feed, carriage return and space.\<close>

definition is_json_ws :: "16 word \<Rightarrow> bool" where
  "is_json_ws c = (c = 0x09 \<or> c = 0x0A \<or> c = 0x0D \<or> c = 0x20)"

definition skip_ws :: "jsstring \<Rightarrow> jsstring" where
  "skip_ws s = dropWhile is_json_ws s"

definition is_digit :: "16 word \<Rightarrow> bool" where
  "is_digit c = (0x30 \<le> c \<and> c \<le> 0x39)"

text \<open>A string literal, from behind its opening quote: the decoded code units and the text
  after the closing quote.  Control characters must be escaped; \<^verbatim>\<open>\u\<close> takes four hex digits.\<close>

definition hex_value :: "16 word \<Rightarrow> nat option" where
  "hex_value c =
     (if 0x30 \<le> c \<and> c \<le> 0x39 then Some (unat c - 0x30)
      else if 0x61 \<le> c \<and> c \<le> 0x66 then Some (unat c - 0x61 + 10)
      else if 0x41 \<le> c \<and> c \<le> 0x46 then Some (unat c - 0x41 + 10)
      else None)"

definition unescape :: "16 word \<Rightarrow> 16 word option" where
  "unescape e =
     (if e = 0x22 then Some 0x22
      else if e = 0x5C then Some 0x5C
      else if e = 0x2F then Some 0x2F
      else if e = 0x62 then Some 0x08
      else if e = 0x66 then Some 0x0C
      else if e = 0x6E then Some 0x0A
      else if e = 0x72 then Some 0x0D
      else if e = 0x74 then Some 0x09
      else None)"

definition hex4 :: "16 word \<Rightarrow> 16 word \<Rightarrow> 16 word \<Rightarrow> 16 word \<Rightarrow> 16 word option" where
  "hex4 a b c d =
     (case hex_value a of None \<Rightarrow> None | Some x3 \<Rightarrow>
      case hex_value b of None \<Rightarrow> None | Some x2 \<Rightarrow>
      case hex_value c of None \<Rightarrow> None | Some x1 \<Rightarrow>
      case hex_value d of None \<Rightarrow> None | Some x0 \<Rightarrow>
        Some (of_nat (4096 * x3 + 256 * x2 + 16 * x1 + x0)))"

fun parse_string :: "jsstring \<Rightarrow> (jsstring \<times> jsstring) option" where
  "parse_string [] = None"
| "parse_string (c # s) =
     (if c = 0x22 then Some ([], s)
      else if c = 0x5C then
        (case s of
           [] \<Rightarrow> None
         | e # s' \<Rightarrow>
             if e = 0x75 then
               (case s' of
                  a # b # c' # d # s'' \<Rightarrow>
                    (case hex4 a b c' d of
                       None \<Rightarrow> None
                     | Some u \<Rightarrow> map_option (\<lambda>(t, r). (u # t, r)) (parse_string s''))
                | _ \<Rightarrow> None)
             else
               (case unescape e of
                  None \<Rightarrow> None
                | Some u \<Rightarrow> map_option (\<lambda>(t, r). (u # t, r)) (parse_string s')))
      else if c < 0x20 then None
      else map_option (\<lambda>(t, r). (c # t, r)) (parse_string s))"

text \<open>A number literal: \<^verbatim>\<open>-? (0 | [1-9][0-9]*) (. [0-9]+)? ([eE] [+-]? [0-9]+)?\<close>; the
  scanner returns the literal and the text after it.\<close>

definition scan_int :: "jsstring \<Rightarrow> (jsstring \<times> jsstring) option" where
  "scan_int s =
     (case s of
        [] \<Rightarrow> None
      | c # r \<Rightarrow>
          if c = 0x30 then Some ([c], r)
          else if is_digit c then Some (c # takeWhile is_digit r, dropWhile is_digit r)
          else None)"

definition scan_frac :: "jsstring \<Rightarrow> (jsstring \<times> jsstring) option" where
  "scan_frac s =
     (case s of
        [] \<Rightarrow> Some ([], s)
      | c # r \<Rightarrow>
          if c = 0x2E then
            (if takeWhile is_digit r = [] then None
             else Some (c # takeWhile is_digit r, dropWhile is_digit r))
          else Some ([], s))"

definition scan_exp :: "jsstring \<Rightarrow> (jsstring \<times> jsstring) option" where
  "scan_exp s =
     (case s of
        [] \<Rightarrow> Some ([], s)
      | c # r \<Rightarrow>
          if c = 0x65 \<or> c = 0x45 then
            (let sg = (case r of [] \<Rightarrow> [] | x # r' \<Rightarrow> if x = 0x2B \<or> x = 0x2D then [x] else []);
                 r' = drop (length sg) r
             in if takeWhile is_digit r' = [] then None
                else Some (c # sg @ takeWhile is_digit r', dropWhile is_digit r'))
          else Some ([], s))"

definition scan_number :: "jsstring \<Rightarrow> (jsstring \<times> jsstring) option" where
  "scan_number s =
     (let sg = (case s of [] \<Rightarrow> [] | c # r \<Rightarrow> if c = 0x2D then [c] else [])
      in case scan_int (drop (length sg) s) of
           None \<Rightarrow> None
         | Some (i, r1) \<Rightarrow>
             (case scan_frac r1 of
                None \<Rightarrow> None
              | Some (f, r2) \<Rightarrow>
                  (case scan_exp r2 of
                     None \<Rightarrow> None
                   | Some (e, r3) \<Rightarrow> Some (sg @ i @ f @ e, r3))))"

text \<open>
  \<^verbatim>\<open>JSON.parse\<close> defines the properties of an object in the order of the text; a key
  that occurs again replaces the value in place.  The properties are enumerated with
  the array indices (canonical decimal numerals below \<open>2\<^sup>3\<^sup>2 - 1\<close>) first, in ascending
  order, and then the other keys in the order of their definition.
\<close>

definition dec_value :: "jsstring \<Rightarrow> nat" where
  "dec_value k = foldl (\<lambda>n c. 10 * n + (unat c - 0x30)) 0 k"

definition array_index :: "jsstring \<Rightarrow> nat option" where
  "array_index k =
     (if k \<noteq> [] \<and> list_all is_digit k \<and> (hd k \<noteq> 0x30 \<or> k = [0x30]) \<and> dec_value k < 4294967295
      then Some (dec_value k) else None)"

fun insert_index :: "nat \<Rightarrow> jsstring \<Rightarrow> jsval \<Rightarrow> (jsstring \<times> jsval) list \<Rightarrow> (jsstring \<times> jsval) list" where
  "insert_index n k v [] = [(k, v)]"
| "insert_index n k v ((k', v') # kvs) =
     (case array_index k' of
        None \<Rightarrow> (k, v) # (k', v') # kvs
      | Some m \<Rightarrow> if m < n then (k', v') # insert_index n k v kvs else (k, v) # (k', v') # kvs)"

definition define_prop :: "jsstring \<Rightarrow> jsval \<Rightarrow> (jsstring \<times> jsval) list \<Rightarrow> (jsstring \<times> jsval) list" where
  "define_prop k v kvs =
     (case array_index k of
        None \<Rightarrow> set_prop k v kvs
      | Some n \<Rightarrow> if map_of kvs k = None then insert_index n k v kvs else set_prop k v kvs)"

text \<open>
  A value, the elements of an array after the first bracket, and the members of an object
  after the first brace.  The recursion is on the length of the text; the tests
  \<open>length r < length s\<close> on the rest that \<open>parse_value\<close> returns make that evident to the
  termination proof and never fail (\<open>parse_shorter\<close> below).
\<close>

lemma skip_ws_shorter: "skip_ws s = c # r \<Longrightarrow> length r < length s"
proof -
  assume a: "skip_ws s = c # r"
  have "length (skip_ws s) \<le> length s"
    unfolding skip_ws_def by (rule length_dropWhile_le)
  then show ?thesis using a by simp
qed

lemma parse_string_shorter: "parse_string s = Some (t, r) \<Longrightarrow> length r < length s"
proof (induction s arbitrary: t r rule: parse_string.induct)
  case 1
  then show ?case by simp
next
  case (2 c s)
  then show ?case
    by (auto split: if_splits list.splits option.splits) fastforce+
qed

function (sequential)
  parse_value :: "(jsstring \<Rightarrow> jsstring) \<Rightarrow> jsstring \<Rightarrow> (jsval \<times> jsstring) option"
  and parse_elems :: "(jsstring \<Rightarrow> jsstring) \<Rightarrow> jsval list \<Rightarrow> jsstring \<Rightarrow> (jsval list \<times> jsstring) option"
  and parse_members :: "(jsstring \<Rightarrow> jsstring) \<Rightarrow> (jsstring \<times> jsval) list \<Rightarrow> jsstring
                        \<Rightarrow> ((jsstring \<times> jsval) list \<times> jsstring) option"
where
  "parse_value num s =
     (case skip_ws s of
        [] \<Rightarrow> None
      | c # r \<Rightarrow>
          if c = 0x22 then map_option (\<lambda>(t, r'). (JStr t, r')) (parse_string r)
          else if c = 0x5B then
            (case skip_ws r of
               [] \<Rightarrow> None
             | d # r' \<Rightarrow>
                 if d = 0x5D then Some (JArr [], r')
                 else map_option (\<lambda>(xs, r''). (JArr xs, r'')) (parse_elems num [] r))
          else if c = 0x7B then
            (case skip_ws r of
               [] \<Rightarrow> None
             | d # r' \<Rightarrow>
                 if d = 0x7D then Some (JObj [], r')
                 else map_option (\<lambda>(kvs, r''). (JObj kvs, r'')) (parse_members num [] r))
          else if prefix (str ''null'') (c # r) then Some (JNull, drop 4 (c # r))
          else if prefix (str ''true'') (c # r) then Some (JBool True, drop 4 (c # r))
          else if prefix (str ''false'') (c # r) then Some (JBool False, drop 5 (c # r))
          else map_option (\<lambda>(lit, r'). (JNum (num lit), r')) (scan_number (c # r)))"
| "parse_elems num acc s =
     (case parse_value num s of
        None \<Rightarrow> None
      | Some (v, r) \<Rightarrow>
          if length r < length s then
            (case skip_ws r of
               [] \<Rightarrow> None
             | c # r' \<Rightarrow>
                 if c = 0x2C then parse_elems num (acc @ [v]) r'
                 else if c = 0x5D then Some (acc @ [v], r')
                 else None)
          else None)"
| "parse_members num acc s =
     (case skip_ws s of
        [] \<Rightarrow> None
      | q # r \<Rightarrow>
          if q = 0x22 then
            (case parse_string r of
               None \<Rightarrow> None
             | Some (k, r1) \<Rightarrow>
                 (case skip_ws r1 of
                    [] \<Rightarrow> None
                  | col # r2 \<Rightarrow>
                      if col = 0x3A then
                        (case parse_value num r2 of
                           None \<Rightarrow> None
                         | Some (v, r3) \<Rightarrow>
                             if length r3 < length r2 then
                               (case skip_ws r3 of
                                  [] \<Rightarrow> None
                                | c # r4 \<Rightarrow>
                                    if c = 0x2C then parse_members num (define_prop k v acc) r4
                                    else if c = 0x7D then Some (define_prop k v acc, r4)
                                    else None)
                             else None)
                      else None))
          else None)"
  by pat_completeness auto
termination
proof (relation "measure (\<lambda>x. case x of
                   Inl (num, s) \<Rightarrow> 2 * length s
                 | Inr (Inl (num, acc, s)) \<Rightarrow> 2 * length s + 1
                 | Inr (Inr (num, acc, s)) \<Rightarrow> 2 * length s + 1)", goal_cases)
  case 1
  show ?case by simp
next
  case (2 num s c r d r')
  then show ?case using skip_ws_shorter[of s c r] by simp
next
  case (3 num s c r d r')
  then show ?case using skip_ws_shorter[of s c r] by simp
next
  case (4 num acc s)
  show ?case by simp
next
  case (5 num acc s x v r c r')
  then show ?case using skip_ws_shorter[of r c r'] by simp
next
  case (6 num acc s q r x k r1 col r2)
  then show ?case
    using skip_ws_shorter[of s q r] parse_string_shorter[of r k r1] skip_ws_shorter[of r1 col r2]
    by simp
next
  case (7 num acc s q r x k r1 col r2 y v r3 c r4)
  then show ?case
    using skip_ws_shorter[of s q r] parse_string_shorter[of r k r1] skip_ws_shorter[of r1 col r2]
      skip_ws_shorter[of r3 c r4]
    by simp
qed

declare parse_value.simps [simp del] parse_elems.simps [simp del] parse_members.simps [simp del]

text \<open>\<^verbatim>\<open>JSON.parse(text)\<close>: one value, with nothing but white space after it.\<close>

definition JSON_parse :: "(jsstring \<Rightarrow> jsstring) \<Rightarrow> jsstring \<Rightarrow> error + jsval" where
  "JSON_parse num text =
     (case parse_value num text of
        None \<Rightarrow> Inl SyntaxError
      | Some (v, r) \<Rightarrow> if skip_ws r = [] then Inr v else Inl SyntaxError)"

subsection \<open>Serialising\<close>

text \<open>
  \<^verbatim>\<open>QuoteJSONString\<close>: the two-character escapes, \<^verbatim>\<open>\uXXXX\<close> in lower-case hex for the
  other control characters and for a surrogate that is not part of a pair, everything
  else as it is.
\<close>

definition hex_digit :: "nat \<Rightarrow> 16 word" where
  "hex_digit n = (if n < 10 then 0x30 + of_nat n else 0x61 + of_nat (n - 10))"

definition unicode_escape :: "16 word \<Rightarrow> jsstring" where
  "unicode_escape c =
     [0x5C, 0x75, hex_digit (unat c div 4096), hex_digit (unat c div 256 mod 16),
      hex_digit (unat c div 16 mod 16), hex_digit (unat c mod 16)]"

definition is_high :: "16 word \<Rightarrow> bool" where
  "is_high c = (0xD800 \<le> c \<and> c \<le> 0xDBFF)"

definition is_low :: "16 word \<Rightarrow> bool" where
  "is_low c = (0xDC00 \<le> c \<and> c \<le> 0xDFFF)"

definition quote_unit :: "16 word \<Rightarrow> jsstring" where
  "quote_unit c =
     (if c = 0x08 then [0x5C, 0x62]
      else if c = 0x09 then [0x5C, 0x74]
      else if c = 0x0A then [0x5C, 0x6E]
      else if c = 0x0C then [0x5C, 0x66]
      else if c = 0x0D then [0x5C, 0x72]
      else if c = 0x22 then [0x5C, 0x22]
      else if c = 0x5C then [0x5C, 0x5C]
      else if c < 0x20 \<or> is_high c \<or> is_low c then unicode_escape c
      else [c])"

fun quote_body :: "jsstring \<Rightarrow> jsstring" where
  "quote_body [] = []"
| "quote_body [c] = quote_unit c"
| "quote_body (c # d # s) =
     (if is_high c \<and> is_low d then c # d # quote_body s
      else quote_unit c @ quote_body (d # s))"

definition quote :: "jsstring \<Rightarrow> jsstring" where
  "quote s = [0x22] @ quote_body s @ [0x22]"

text \<open>
  \<^verbatim>\<open>SerializeJSONProperty\<close> without indentation: \<^verbatim>\<open>undefined\<close> has no serialisation
  (\<open>None\<close>); it is \<^verbatim>\<open>null\<close> as an array element and is left out as a property value.  A
  number that is not finite is \<^verbatim>\<open>null\<close>.
\<close>

fun join_comma :: "jsstring list \<Rightarrow> jsstring" where
  "join_comma [] = []"
| "join_comma [x] = x"
| "join_comma (x # y # ys) = x @ [0x2C] @ join_comma (y # ys)"

fun serialize :: "jsval \<Rightarrow> jsstring option"
  and serialize_elems :: "jsval list \<Rightarrow> jsstring list"
  and serialize_members :: "(jsstring \<times> jsval) list \<Rightarrow> jsstring list" where
  "serialize JUndefined = None"
| "serialize JNull = Some (str ''null'')"
| "serialize (JBool b) = Some (if b then str ''true'' else str ''false'')"
| "serialize (JNum r) =
     Some (if r = str ''NaN'' \<or> r = str ''Infinity'' \<or> r = str ''-Infinity'' then str ''null'' else r)"
| "serialize (JStr s) = Some (quote s)"
| "serialize (JArr xs) = Some ([0x5B] @ join_comma (serialize_elems xs) @ [0x5D])"
| "serialize (JObj kvs) = Some ([0x7B] @ join_comma (serialize_members kvs) @ [0x7D])"
| "serialize_elems [] = []"
| "serialize_elems (x # xs) =
     (case serialize x of None \<Rightarrow> str ''null'' | Some t \<Rightarrow> t) # serialize_elems xs"
| "serialize_members [] = []"
| "serialize_members ((k, v) # kvs) =
     (case serialize v of
        None \<Rightarrow> serialize_members kvs
      | Some t \<Rightarrow> (quote k @ [0x3A] @ t) # serialize_members kvs)"

text \<open>The string that \<^verbatim>\<open>localStorage.setItem(key, JSON.stringify(v))\<close> stores.\<close>

definition JSON_stringify :: "jsval \<Rightarrow> jsstring" where
  "JSON_stringify v = (case serialize v of None \<Rightarrow> str ''undefined'' | Some t \<Rightarrow> t)"


section \<open>Notes\<close>

text \<open>
  The Note of the data model: five strings.  \<open>to_js\<close> is the object that
  \<^verbatim>\<open>handleCreate\<close> builds for it, with the properties in the order of the object literal.
\<close>

record note_rec =
  id' :: jsstring
  title :: jsstring
  content :: jsstring
  createdAt :: jsstring
  updatedAt :: jsstring

definition to_js :: "note_rec \<Rightarrow> jsval" where
  "to_js n = JObj [(str ''id'', JStr (id' n)),
                   (str ''title'', JStr (title n)),
                   (str ''content'', JStr (content n)),
                   (str ''createdAt'', JStr (createdAt n)),
                   (str ''updatedAt'', JStr (updatedAt n))]"

text \<open>\<^verbatim>\<open>const uid = () => `${Date.now()}-${Math.random().toString(36).slice(2, 8)}`\<close>,
  as a function of the two renderings the environment supplies.\<close>

definition uid :: "jsstring \<Rightarrow> jsstring \<Rightarrow> jsstring" where
  "uid date_now random36 = date_now @ str ''-'' @ slice 2 8 random36"


section \<open>The note form\<close>

text \<open>
  The values \<^verbatim>\<open>{ title, content }\<close> that \<^verbatim>\<open>NoteForm\<close> hands to its \<^verbatim>\<open>onSubmit\<close>.
  The handlers read \<^verbatim>\<open>values.content?.trim()\<close>, so a content that is \<^verbatim>\<open>null\<close> or
  \<^verbatim>\<open>undefined\<close> is part of their domain: it is \<open>None\<close>.
\<close>

record form_values =
  title :: jsstring
  content :: "jsstring option"

datatype 'a submitted = Rejected jsstring | Accepted 'a

text \<open>
  \<^verbatim>\<open>submit\<close> of \<^verbatim>\<open>NoteForm\<close>: an empty trimmed title sets the error and returns without
  calling \<^verbatim>\<open>onSubmit\<close>.
\<close>

definition submit :: "jsstring \<Rightarrow> jsstring option \<Rightarrow> (form_values \<Rightarrow> 'a) \<Rightarrow> 'a submitted" where
  "submit t c onSubmit =
     (if trim t = [] then Rejected (str ''Title cannot be empty.'')
      else Accepted (onSubmit \<lparr>form_values.title = t, form_values.content = c\<rparr>))"

text \<open>\<^verbatim>\<open>values.content?.trim() || ''\<close>\<close>

definition content_or_empty :: "jsstring option \<Rightarrow> jsstring" where
  "content_or_empty c =
     (case c of None \<Rightarrow> [] | Some s \<Rightarrow> if trim s \<noteq> [] then trim s else [])"


section \<open>The application root\<close>

record app_state =
  "notes" :: "jsval list"
  query :: jsstring
  isAdding :: bool
  editingId :: "jsstring option"

text \<open>The four \<^verbatim>\<open>useState\<close> initial values.\<close>

definition init_state :: app_state where
  "init_state = \<lparr>notes = [], query = [], isAdding = False, editingId = None\<rparr>"

subsection \<open>Local storage\<close>

text \<open>
  \<^verbatim>\<open>localStorage\<close> maps keys to strings.  Access throws when the browser denies storage;
  \<^verbatim>\<open>setItem\<close> throws when the value does not fit the quota, which the browser decides
  (\<open>fits\<close>).
\<close>

datatype storage = Unavailable | Store "jsstring \<Rightarrow> jsstring option"

definition storage_key :: jsstring where
  "storage_key = str ''notes_app__notes''"

fun getItem :: "storage \<Rightarrow> jsstring \<Rightarrow> error + jsstring option" where
  "getItem Unavailable k = Inl SecurityError"
| "getItem (Store m) k = Inr (m k)"

fun setItem :: "(jsstring \<Rightarrow> bool) \<Rightarrow> storage \<Rightarrow> jsstring \<Rightarrow> jsstring \<Rightarrow> error + storage" where
  "setItem fits Unavailable k v = Inl SecurityError"
| "setItem fits (Store m) k v =
     (if fits v then Inr (Store (m(k \<mapsto> v))) else Inl QuotaExceededError)"

text \<open>
  The first effect (load from storage).  \<^verbatim>\<open>JSON.parse\<close> is a function of the platform:
  \<open>parse\<close> returns the parsed value or the exception.  Every exception is caught and
  ignored, and the state is left as it was.
\<close>

definition hydrate :: "(jsstring \<Rightarrow> error + jsval) \<Rightarrow> storage \<Rightarrow> app_state \<Rightarrow> app_state" where
  "hydrate parse st s =
     (case getItem st storage_key of
        Inl e \<Rightarrow> s
      | Inr None \<Rightarrow> s
      | Inr (Some raw) \<Rightarrow>
          if raw \<noteq> [] then
            (case parse raw of
               Inl e \<Rightarrow> s
             | Inr parsed \<Rightarrow> (case parsed of JArr xs \<Rightarrow> s\<lparr>notes := xs\<rparr> | _ \<Rightarrow> s))
          else s)"

text \<open>
  The second effect (save on change).  \<^verbatim>\<open>JSON.stringify\<close> is a function of the platform
  (\<open>stringify\<close>); a failing write is ignored and leaves the storage as it was.
\<close>

definition persist ::
  "(jsstring \<Rightarrow> bool) \<Rightarrow> (jsval \<Rightarrow> jsstring) \<Rightarrow> storage \<Rightarrow> app_state \<Rightarrow> storage" where
  "persist fits stringify st s =
     (case setItem fits st storage_key (stringify (JArr (notes s))) of
        Inl e \<Rightarrow> st
      | Inr st' \<Rightarrow> st')"

subsection \<open>The filtered list\<close>

text \<open>
  The callback of \<^verbatim>\<open>notes.filter\<close>; \<^verbatim>\<open>||\<close> does not evaluate its right operand when the
  title already matches.
\<close>

definition matches :: "(jsstring \<Rightarrow> jsstring) \<Rightarrow> jsstring \<Rightarrow> jsval \<Rightarrow> error + bool" where
  "matches lower q n =
     (case get_prop n (str ''title'') of
        Inl e \<Rightarrow> Inl e
      | Inr t \<Rightarrow>
          (case toLowerCase lower t of
             Inl e \<Rightarrow> Inl e
           | Inr lt \<Rightarrow>
               if includes_str lt q then Inr True
               else
                 (case get_prop n (str ''content'') of
                    Inl e \<Rightarrow> Inl e
                  | Inr c \<Rightarrow>
                      (case toLowerCase lower (if truthy c then c else JStr []) of
                         Inl e \<Rightarrow> Inl e
                       | Inr lc \<Rightarrow> Inr (includes_str lc q)))))"

definition filtered :: "(jsstring \<Rightarrow> jsstring) \<Rightarrow> jsval list \<Rightarrow> jsstring \<Rightarrow> error + jsval list" where
  "filtered lower ns qry =
     (let q = lower (trim qry)
      in if q = [] then Inr ns else filter_err (matches lower q) ns)"

subsection \<open>Handlers\<close>

text \<open>
  What \<^verbatim>\<open>handleCreate\<close> reads from the environment: \<^verbatim>\<open>new Date().toISOString()\<close>, and for
  \<^verbatim>\<open>uid()\<close> the renderings of \<^verbatim>\<open>Date.now()\<close> and of \<^verbatim>\<open>Math.random().toString(36)\<close>.
\<close>

record create_env =
  now_iso :: jsstring
  date_now :: jsstring
  random36 :: jsstring

definition handleCreate :: "create_env \<Rightarrow> form_values \<Rightarrow> app_state \<Rightarrow> app_state" where
  "handleCreate env values s =
     (let now = now_iso env;
          newNote = JObj [(str ''id'', JStr (uid (date_now env) (random36 env))),
                          (str ''title'', JStr (trim (form_values.title values))),
                          (str ''content'', JStr (content_or_empty (form_values.content values))),
                          (str ''createdAt'', JStr now),
                          (str ''updatedAt'', JStr now)]
      in s\<lparr>notes := newNote # notes s, isAdding := False\<rparr>)"

text \<open>
  The callback of \<^verbatim>\<open>prev.map\<close> in \<^verbatim>\<open>handleUpdate\<close>.  The spread \<^verbatim>\<open>{...n, title, content,
  updatedAt}\<close> is reached only when \<^verbatim>\<open>n.id === id\<close> for the string \<open>i\<close>, that is, only for
  an object.
\<close>

definition update_note :: "jsstring \<Rightarrow> jsstring \<Rightarrow> form_values \<Rightarrow> jsval \<Rightarrow> error + jsval" where
  "update_note now i values n =
     (case get_prop n (str ''id'') of
        Inl e \<Rightarrow> Inl e
      | Inr v \<Rightarrow>
          if strict_eq v (JStr i) then
            (case n of
               JObj kvs \<Rightarrow>
                 Inr (JObj (set_prop (str ''updatedAt'') (JStr now)
                           (set_prop (str ''content'')
                                     (JStr (content_or_empty (form_values.content values)))
                           (set_prop (str ''title'') (JStr (trim (form_values.title values)))
                                     kvs))))
             | _ \<Rightarrow> Inr n)
          else Inr n)"

definition handleUpdate :: "jsstring \<Rightarrow> jsstring \<Rightarrow> form_values \<Rightarrow> app_state \<Rightarrow> error + app_state" where
  "handleUpdate now i values s =
     (case map_err (update_note now i values) (notes s) of
        Inl e \<Rightarrow> Inl e
      | Inr ns \<Rightarrow> Inr (s\<lparr>notes := ns, editingId := None\<rparr>))"

text \<open>\<^verbatim>\<open>n => n.id === id\<close>\<close>

definition has_id :: "jsstring \<Rightarrow> jsval \<Rightarrow> error + bool" where
  "has_id i n =
     (case get_prop n (str ''id'') of Inl e \<Rightarrow> Inl e | Inr v \<Rightarrow> Inr (strict_eq v (JStr i)))"

text \<open>\<^verbatim>\<open>n => n.id !== id\<close>\<close>

definition has_other_id :: "jsstring \<Rightarrow> jsval \<Rightarrow> error + bool" where
  "has_other_id i n =
     (case get_prop n (str ''id'') of Inl e \<Rightarrow> Inl e | Inr v \<Rightarrow> Inr (\<not> strict_eq v (JStr i)))"

text \<open>
  The text of the confirmation: \<^verbatim>\<open>`Delete ${name}? This cannot be undone.`\<close> with
  \<^verbatim>\<open>name = note?.title ? `"${note.title}"` : 'this note'\<close>.
\<close>

definition delete_prompt :: "jsval option \<Rightarrow> error + jsstring" where
  "delete_prompt found =
     (case (case found of None \<Rightarrow> Inr JUndefined | Some n \<Rightarrow> get_prop n (str ''title'')) of
        Inl e \<Rightarrow> Inl e
      | Inr t \<Rightarrow>
          Inr (str ''Delete ''
               @ (if truthy t then [0x22] @ to_string t @ [0x22] else str ''this note'')
               @ str ''? This cannot be undone.''))"

text \<open>\<open>confirm\<close> is the answer of the user to \<^verbatim>\<open>window.confirm\<close> with the given text.\<close>

definition handleDelete :: "(jsstring \<Rightarrow> bool) \<Rightarrow> jsstring \<Rightarrow> app_state \<Rightarrow> error + app_state" where
  "handleDelete confirm i s =
     (case find_err (has_id i) (notes s) of
        Inl e \<Rightarrow> Inl e
      | Inr found \<Rightarrow>
          (case delete_prompt found of
             Inl e \<Rightarrow> Inl e
           | Inr msg \<Rightarrow>
               if confirm msg then
                 (case filter_err (has_other_id i) (notes s) of
                    Inl e \<Rightarrow> Inl e
                  | Inr ns \<Rightarrow> Inr (s\<lparr>notes := ns\<rparr>))
               else Inr s))"

subsection \<open>The note view\<close>

text \<open>\<^verbatim>\<open>const isEdited = note.createdAt !== note.updatedAt\<close>: the condition of the
  ``Updated'' label.\<close>

definition isEdited :: "jsval \<Rightarrow> error + bool" where
  "isEdited n =
     (case get_prop n (str ''createdAt'') of
        Inl e \<Rightarrow> Inl e
      | Inr c \<Rightarrow>
          (case get_prop n (str ''updatedAt'') of
             Inl e \<Rightarrow> Inl e
           | Inr u \<Rightarrow> Inr (\<not> strict_eq c u)))"


subsection \<open>Sequences of operations\<close>

text \<open>
  The three mutations of the collection, with what each reads from the environment: the
  clock and the random draw for Create, the clock (\<^verbatim>\<open>new Date().toISOString()\<close>) for
  Update, the answer to the confirmation for Delete.
\<close>

datatype op =
    Create create_env form_values
  | Update jsstring jsstring form_values
  | Delete bool jsstring

fun exec :: "op \<Rightarrow> app_state \<Rightarrow> error + app_state" where
  "exec (Create env v) s = Inr (handleCreate env v s)"
| "exec (Update now i v) s = handleUpdate now i v s"
| "exec (Delete ok i) s = handleDelete (\<lambda>msg. ok) i s"

fun run :: "op list \<Rightarrow> app_state \<Rightarrow> error + app_state" where
  "run [] s = Inr s"
| "run (x # xs) s = (case exec x s of Inl e \<Rightarrow> Inl e | Inr s' \<Rightarrow> run xs s')"

text \<open>The clock reading an operation takes, if it takes one.\<close>

fun reading :: "op \<Rightarrow> jsstring option" where
  "reading (Create env v) = Some (now_iso env)"
| "reading (Update now i v) = Some now"
| "reading (Delete ok i) = None"

text \<open>A note of the collection whose two timestamps are strings in order.\<close>

definition timestamps_ordered :: "jsval \<Rightarrow> bool" where
  "timestamps_ordered n =
     (case get_prop n (str ''createdAt'') of
        Inr (JStr c) \<Rightarrow>
          (case get_prop n (str ''updatedAt'') of Inr (JStr u) \<Rightarrow> ts_le c u | _ \<Rightarrow> False)
      | _ \<Rightarrow> False)"

subsection \<open>User interactions\<close>

text \<open>
  The controls that the rendered tree offers and what their callbacks do.  The
  interactions are modelled in the states whose collection holds notes of the data model
  (objects whose five properties are strings), for which rendering does not throw; in
  any other state \<open>step\<close> is \<open>None\<close>, as it is for a control that is not rendered.
\<close>

definition is_str_prop :: "(jsstring \<times> jsval) list \<Rightarrow> jsstring \<Rightarrow> bool" where
  "is_str_prop kvs k = (case map_of kvs k of Some (JStr x) \<Rightarrow> True | _ \<Rightarrow> False)"

definition well_formed :: "jsval \<Rightarrow> bool" where
  "well_formed n =
     (case n of
        JObj kvs \<Rightarrow>
          list_all (is_str_prop kvs)
            [str ''id'', str ''title'', str ''content'', str ''createdAt'', str ''updatedAt'']
      | _ \<Rightarrow> False)"

definition note_id :: "jsval \<Rightarrow> jsstring option" where
  "note_id n = (case get_prop n (str ''id'') of Inr (JStr i) \<Rightarrow> Some i | _ \<Rightarrow> None)"

datatype event =
    ClickNewNote
  | ClickEmptyCreate
  | SubmitAdd jsstring jsstring create_env
  | CancelAdd
  | ClickEdit nat
  | SubmitEdit jsstring jsstring jsstring
  | CancelEdit
  | ClickDelete nat bool
  | ChangeQuery jsstring
  | PressEscape

text \<open>
  \<open>ui vis ev s\<close>: the event \<open>ev\<close> in the state \<open>s\<close> whose rendered list is \<open>vis\<close>.
  \<^item> \<open>ClickNewNote\<close>: the button of the header, \<^verbatim>\<open>setIsAdding(true); setEditingId(null)\<close>.
  \<^item> \<open>ClickEmptyCreate\<close>: the button of \<^verbatim>\<open>EmptyState\<close>, rendered when the filtered list is
    empty; its callback is \<^verbatim>\<open>() => setIsAdding(true)\<close>.
  \<^item> \<open>SubmitAdd t c env\<close>, \<open>CancelAdd\<close>: the form of the add card, rendered when
    \<^verbatim>\<open>isAdding\<close>, submitted with the fields \<open>t\<close> and \<open>c\<close>.
  \<^item> \<open>ClickEdit k\<close>, \<open>ClickDelete k ok\<close>: the buttons of the \<open>k\<close>-th rendered card, which
    shows \<^verbatim>\<open>NoteView\<close> unless \<^verbatim>\<open>editingId === note.id\<close>.
  \<^item> \<open>SubmitEdit t c now\<close>, \<open>CancelEdit\<close>: the form of a rendered card with
    \<^verbatim>\<open>editingId === note.id\<close>.
  \<^item> \<open>ChangeQuery q\<close>: the search box (typing, or the clear button with \<open>q\<close> empty).
  \<^item> \<open>PressEscape\<close>: the key listener.
\<close>

fun ui :: "jsval list \<Rightarrow> event \<Rightarrow> app_state \<Rightarrow> app_state option" where
  "ui vis ClickNewNote s = Some (s\<lparr>isAdding := True, editingId := None\<rparr>)"
| "ui vis ClickEmptyCreate s = (if length vis = 0 then Some (s\<lparr>isAdding := True\<rparr>) else None)"
| "ui vis (SubmitAdd t c env) s =
     (if isAdding s then
        (case submit t (Some c) (\<lambda>v. handleCreate env v s) of
           Rejected msg \<Rightarrow> Some s
         | Accepted s' \<Rightarrow> Some s')
      else None)"
| "ui vis CancelAdd s = (if isAdding s then Some (s\<lparr>isAdding := False\<rparr>) else None)"
| "ui vis (ClickEdit k) s =
     (if k < length vis then
        (case note_id (vis ! k) of
           None \<Rightarrow> None
         | Some i \<Rightarrow>
             if editingId s = Some i then None
             else Some (s\<lparr>editingId := Some i, isAdding := False\<rparr>))
      else None)"
| "ui vis (ClickDelete k ok) s =
     (if k < length vis then
        (case note_id (vis ! k) of
           None \<Rightarrow> None
         | Some i \<Rightarrow>
             if editingId s = Some i then None
             else (case handleDelete (\<lambda>msg. ok) i s of Inl e \<Rightarrow> None | Inr s' \<Rightarrow> Some s'))
      else None)"
| "ui vis (SubmitEdit t c now) s =
     (case editingId s of
        None \<Rightarrow> None
      | Some i \<Rightarrow>
          if Some i \<in> set (map note_id vis) then
            (case submit t (Some c) (\<lambda>v. handleUpdate now i v s) of
               Rejected msg \<Rightarrow> Some s
             | Accepted r \<Rightarrow> (case r of Inl e \<Rightarrow> None | Inr s' \<Rightarrow> Some s'))
          else None)"
| "ui vis CancelEdit s =
     (case editingId s of
        None \<Rightarrow> None
      | Some i \<Rightarrow>
          if Some i \<in> set (map note_id vis) then Some (s\<lparr>editingId := None\<rparr>) else None)"
| "ui vis (ChangeQuery q) s = Some (s\<lparr>query := q\<rparr>)"
| "ui vis PressEscape s = Some (s\<lparr>isAdding := False, editingId := None\<rparr>)"

definition step :: "(jsstring \<Rightarrow> jsstring) \<Rightarrow> event \<Rightarrow> app_state \<Rightarrow> app_state option" where
  "step lower ev s =
     (if list_all well_formed (notes s) then
        (case filtered lower (notes s) (query s) of
           Inl e \<Rightarrow> None
         | Inr vis \<Rightarrow> ui vis ev s)
      else None)"

fun interact :: "(jsstring \<Rightarrow> jsstring) \<Rightarrow> event list \<Rightarrow> app_state \<Rightarrow> app_state option" where
  "interact lower [] s = Some s"
| "interact lower (ev # evs) s =
     (case step lower ev s of None \<Rightarrow> None | Some s' \<Rightarrow> interact lower evs s')"


subsection \<open>The operations on notes of the data model\<close>

text \<open>
  The operations as the specification words them, on notes of the data model: Create
  ``assigns a fresh id, trims title and content, sets createdAt = updatedAt = now, and
  prepends''; Update ``replaces title/content with trimmed values and refreshes
  updatedAt = now''; Delete, ``if confirmed, removes the note''.  The theorems below relate
  the handlers to them.
\<close>

definition created_note :: "create_env \<Rightarrow> form_values \<Rightarrow> note_rec" where
  "created_note env v =
     \<lparr>id' = uid (date_now env) (random36 env),
      title = trim (form_values.title v),
      content = content_or_empty (form_values.content v),
      createdAt = now_iso env,
      updatedAt = now_iso env\<rparr>"

definition edit_note :: "jsstring \<Rightarrow> jsstring \<Rightarrow> form_values \<Rightarrow> note_rec \<Rightarrow> note_rec" where
  "edit_note now i v n =
     (if id' n = i
      then n\<lparr>note_rec.title := trim (form_values.title v),
             note_rec.content := content_or_empty (form_values.content v),
             updatedAt := now\<rparr>
      else n)"

fun notes_after :: "op \<Rightarrow> note_rec list \<Rightarrow> note_rec list" where
  "notes_after (Create env v) ns = created_note env v # ns"
| "notes_after (Update now i v) ns = map (edit_note now i v) ns"
| "notes_after (Delete ok i) ns = (if ok then filter (\<lambda>n. id' n \<noteq> i) ns else ns)"

fun notes_after_all :: "op list \<Rightarrow> note_rec list \<Rightarrow> note_rec list" where
  "notes_after_all [] ns = ns"
| "notes_after_all (x # xs) ns = notes_after_all xs (notes_after x ns)"

text \<open>The text that \<^verbatim>\<open>JSON.stringify\<close> writes for a note of the data model.\<close>

definition member_text :: "jsstring \<Rightarrow> jsstring \<Rightarrow> jsstring" where
  "member_text k v = quote k @ [0x3A] @ quote v"

definition note_text :: "note_rec \<Rightarrow> jsstring" where
  "note_text n =
     [0x7B] @ member_text (str ''id'') (id' n)
     @ [0x2C] @ member_text (str ''title'') (note_rec.title n)
     @ [0x2C] @ member_text (str ''content'') (note_rec.content n)
     @ [0x2C] @ member_text (str ''createdAt'') (createdAt n)
     @ [0x2C] @ member_text (str ''updatedAt'') (updatedAt n)
     @ [0x7D]"

text \<open>\<open>edits i x\<close>: the operation \<open>x\<close> is an Update of the id \<open>i\<close>.\<close>

fun edits :: "jsstring \<Rightarrow> op \<Rightarrow> bool" where
  "edits i (Update now j v) = (j = i)"
| "edits i x = False"

text \<open>
  \<open>last_edit i xs\<close>: the clock reading of the last Update in \<open>xs\<close> that names the id \<open>i\<close>,
  if there is one.
\<close>

fun last_edit :: "jsstring \<Rightarrow> op list \<Rightarrow> jsstring option" where
  "last_edit i [] = None"
| "last_edit i (x # xs) =
     (case last_edit i xs of
        Some t \<Rightarrow> Some t
      | None \<Rightarrow> if edits i x then reading x else None)"

text \<open>
  \<open>follow xs n\<close>: what the note \<open>n\<close> of the collection has become after the operations
  \<open>xs\<close>; \<open>None\<close> once a confirmed Delete has named its id.
\<close>

fun follow :: "op list \<Rightarrow> note_rec \<Rightarrow> note_rec option" where
  "follow [] n = Some n"
| "follow (Create env v # xs) n = follow xs n"
| "follow (Update now i v # xs) n = follow xs (edit_note now i v n)"
| "follow (Delete ok i # xs) n = (if ok \<and> id' n = i then None else follow xs n)"


section \<open>Properties of the string functions\<close>

lemma dropWhile_rev_dropWhile_rev:
  "t = [] \<or> \<not> P (hd t) \<Longrightarrow>
   dropWhile P (rev (dropWhile P (rev t))) = rev (dropWhile P (rev t))"
proof (induction t rule: rev_induct)
  case Nil
  then show ?case by simp
next
  case (snoc x xs)
  show ?case
  proof (cases "P x")
    case True
    then show ?thesis using snoc by (cases xs) auto
  next
    case False
    then show ?thesis using snoc by (cases xs) (auto simp: dropWhile_append3)
  qed
qed

lemma trim_idem: "trim (trim s) = trim s"
proof -
  let ?t = "dropWhile is_ws s"
  have h: "?t = [] \<or> \<not> is_ws (hd ?t)"
    by (metis hd_dropWhile)
  have "dropWhile is_ws (trim s) = trim s"
    unfolding trim_def using dropWhile_rev_dropWhile_rev[of "dropWhile is_ws s" is_ws] h by blast
  then show ?thesis
    by (simp add: trim_def)
qed


section \<open>Properties of the JSON functions\<close>

subsection \<open>The parser consumes text\<close>

lemma skip_ws_le: "length (skip_ws s) \<le> length s"
  unfolding skip_ws_def by (rule length_dropWhile_le)

lemma scan_int_shorter: "scan_int s = Some (i, r) \<Longrightarrow> length r < length s"
  using length_dropWhile_le [of is_digit "tl s"]
  by (auto simp: scan_int_def split: list.splits if_splits intro: le_imp_less_Suc)

lemma scan_frac_shorter: "scan_frac s = Some (i, r) \<Longrightarrow> length r \<le> length s"
  using length_dropWhile_le [of is_digit "tl s"]
  by (auto simp: scan_frac_def split: list.splits if_splits intro: le_SucI)

lemma scan_exp_shorter: "scan_exp s = Some (i, r) \<Longrightarrow> length r \<le> length s"
proof (cases s)
  case Nil
  assume "scan_exp s = Some (i, r)"
  then show ?thesis using Nil by (simp add: scan_exp_def)
next
  case (Cons c t)
  assume a: "scan_exp s = Some (i, r)"
  show ?thesis
  proof (cases "c = 0x65 \<or> c = 0x45")
    case False
    then show ?thesis using a Cons by (auto simp: scan_exp_def)
  next
    case True
    then obtain k where "r = dropWhile is_digit (drop k t)"
      using a Cons by (auto simp: scan_exp_def Let_def split: if_splits)
    then have "length r \<le> length t"
      using length_dropWhile_le [of is_digit "drop k t"] by simp
    then show ?thesis using Cons by simp
  qed
qed

lemma scan_number_shorter: "scan_number s = Some (lit, r) \<Longrightarrow> length r < length s"
proof -
  assume a: "scan_number s = Some (lit, r)"
  then obtain k i r1 f r2 e where
    1: "scan_int (drop k s) = Some (i, r1)" and 2: "scan_frac r1 = Some (f, r2)"
    and 3: "scan_exp r2 = Some (e, r)"
    by (auto simp: scan_number_def Let_def split: option.splits)
  have "length r1 < length (drop k s)" using 1 by (rule scan_int_shorter)
  moreover have "length r2 \<le> length r1" using 2 by (rule scan_frac_shorter)
  moreover have "length r \<le> length r2" using 3 by (rule scan_exp_shorter)
  ultimately show ?thesis by simp
qed

lemma parse_shorter:
  "parse_value num s = Some (v, r) \<Longrightarrow> length r < length s"
  "parse_elems num acc s = Some (vs, r) \<Longrightarrow> length r < length s"
  "parse_members num kacc s = Some (kvs, r) \<Longrightarrow> length r < length s"
proof (induction num s and num acc s and num kacc s arbitrary: v r and vs r and kvs r
       rule: parse_value_parse_elems_parse_members.induct)
  case (1 num s)
  from "1.prems" obtain c t where st: "skip_ws s = c # t"
    by (subst (asm) parse_value.simps) (auto split: list.splits)
  have lt: "length t < length s" using st by (rule skip_ws_shorter)
  have le: "length (c # t) \<le> length s" using skip_ws_le [of s] st by simp
  consider (str) "c = 0x22" | (arr) "c \<noteq> 0x22" "c = 0x5B" | (obj) "c \<noteq> 0x22" "c \<noteq> 0x5B" "c = 0x7B"
    | (other) "c \<noteq> 0x22" "c \<noteq> 0x5B" "c \<noteq> 0x7B"
    by blast
  then show ?case
  proof cases
    case str
    then obtain x where "parse_string t = Some (x, r)"
      using "1.prems" st by (subst (asm) parse_value.simps) auto
    then show ?thesis using parse_string_shorter lt by fastforce
  next
    case arr
    from "1.prems" obtain d t' where st': "skip_ws t = d # t'"
      using st arr by (subst (asm) parse_value.simps) (auto split: list.splits)
    show ?thesis
    proof (cases "d = 0x5D")
      case True
      then have "r = t'" using "1.prems" st st' arr by (subst (asm) parse_value.simps) auto
      then show ?thesis using skip_ws_shorter [OF st'] lt by simp
    next
      case False
      then obtain xs where "parse_elems num [] t = Some (xs, r)"
        using "1.prems" st st' arr by (subst (asm) parse_value.simps) auto
      then have "length r < length t"
        using "1.IH"(1) [OF st _ arr(2) st' False] arr by simp
      then show ?thesis using lt by simp
    qed
  next
    case obj
    from "1.prems" obtain d t' where st': "skip_ws t = d # t'"
      using st obj by (subst (asm) parse_value.simps) (auto split: list.splits)
    show ?thesis
    proof (cases "d = 0x7D")
      case True
      then have "r = t'" using "1.prems" st st' obj by (subst (asm) parse_value.simps) auto
      then show ?thesis using skip_ws_shorter [OF st'] lt by simp
    next
      case False
      then obtain xs where "parse_members num [] t = Some (xs, r)"
        using "1.prems" st st' obj by (subst (asm) parse_value.simps) auto
      then have "length r < length t"
        using "1.IH"(2) [OF st _ _ obj(3) st' False] obj by simp
      then show ?thesis using lt by simp
    qed
  next
    case other
    then have "length r < length (c # t) \<or> (\<exists>lit. scan_number (c # t) = Some (lit, r))"
      using "1.prems" st
      by (subst (asm) parse_value.simps) (auto simp: str_def split: if_splits)
    then show ?thesis
    proof
      assume "length r < length (c # t)"
      then show ?thesis using le by simp
    next
      assume "\<exists>lit. scan_number (c # t) = Some (lit, r)"
      then show ?thesis using scan_number_shorter le by fastforce
    qed
  qed
next
  case (2 num acc s)
  from "2.prems" obtain x t where pv: "parse_value num s = Some (x, t)" and g: "length t < length s"
    by (subst (asm) parse_elems.simps) (auto split: option.splits if_splits)
  from "2.prems" obtain c t' where st: "skip_ws t = c # t'"
    using pv g by (subst (asm) parse_elems.simps) (auto split: list.splits)
  have lt: "length t' < length t" using st by (rule skip_ws_shorter)
  show ?case
  proof (cases "c = 0x2C")
    case True
    then have "parse_elems num (acc @ [x]) t' = Some (vs, r)"
      using "2.prems" pv g st by (subst (asm) parse_elems.simps) auto
    then have "length r < length t'"
      using "2.IH"(2) [OF pv refl g st True] by simp
    then show ?thesis using lt g by simp
  next
    case False
    then have "r = t'"
      using "2.prems" pv g st by (subst (asm) parse_elems.simps) (auto split: if_splits)
    then show ?thesis using lt g by simp
  qed
next
  case (3 num kacc s)
  from "3.prems" obtain q t where st: "skip_ws s = q # t" and q: "q = 0x22"
    by (subst (asm) parse_members.simps) (auto split: list.splits if_splits)
  from "3.prems" obtain k t1 where ps: "parse_string t = Some (k, t1)"
    using st q by (subst (asm) parse_members.simps) (auto split: option.splits)
  from "3.prems" obtain col t2 where st1: "skip_ws t1 = col # t2" and col: "col = 0x3A"
    using st q ps by (subst (asm) parse_members.simps) (auto split: list.splits if_splits)
  from "3.prems" obtain x t3 where pv: "parse_value num t2 = Some (x, t3)" and g: "length t3 < length t2"
    using st q ps st1 col by (subst (asm) parse_members.simps) (auto split: option.splits if_splits)
  from "3.prems" obtain c t4 where st3: "skip_ws t3 = c # t4"
    using st q ps st1 col pv g by (subst (asm) parse_members.simps) (auto split: list.splits)
  have l: "length t4 < length s"
    using skip_ws_shorter [OF st] parse_string_shorter [OF ps] skip_ws_shorter [OF st1] g
      skip_ws_shorter [OF st3] by simp
  show ?case
  proof (cases "c = 0x2C")
    case True
    then have "parse_members num (define_prop k x kacc) t4 = Some (kvs, r)"
      using "3.prems" st q ps st1 col pv g st3 by (subst (asm) parse_members.simps) auto
    then have "length r < length t4"
      using "3.IH"(2) [OF st q ps refl st1 col pv refl g st3 True] by simp
    then show ?thesis using l by simp
  next
    case False
    then have "r = t4"
      using "3.prems" st q ps st1 col pv g st3
      by (subst (asm) parse_members.simps) (auto split: if_splits)
    then show ?thesis using l by simp
  qed
qed

subsection \<open>Strings survive quoting and parsing\<close>

lemma hex_value_hex_digit: "n < 16 \<Longrightarrow> hex_value (hex_digit n) = Some n"
proof -
  assume "n < 16"
  then consider "n = 0" | "n = 1" | "n = 2" | "n = 3" | "n = 4" | "n = 5" | "n = 6" | "n = 7"
    | "n = 8" | "n = 9" | "n = 10" | "n = 11" | "n = 12" | "n = 13" | "n = 14" | "n = 15"
    by atomize_elim arith
  then show ?thesis
    by cases (simp_all add: hex_value_def hex_digit_def)
qed

lemma hex4_unicode_escape:
  "hex4 (hex_digit (unat c div 4096)) (hex_digit (unat c div 256 mod 16))
        (hex_digit (unat c div 16 mod 16)) (hex_digit (unat c mod 16)) = Some (c :: 16 word)"
proof -
  have lt: "unat c < 65536" using unsigned_less[of c, where ?'a = nat] by simp
  then have a: "unat c div 4096 < 16" by simp
  have d1: "unat c div 16 div 16 = unat c div 256" and d2: "unat c div 256 div 16 = unat c div 4096"
    by (simp_all add: div_mult2_eq [symmetric])
  have e: "4096 * (unat c div 4096) + 256 * (unat c div 256 mod 16) + 16 * (unat c div 16 mod 16)
           + unat c mod 16 = unat c"
    using div_mult_mod_eq [of "unat c" 16] div_mult_mod_eq [of "unat c div 16" 16]
      div_mult_mod_eq [of "unat c div 256" 16] d1 d2
    by linarith
  show ?thesis
    by (simp add: hex4_def hex_value_hex_digit a e)
qed

lemma parse_string_quote_unit:
  "parse_string (quote_unit c @ tl') = map_option (\<lambda>(t, r). (c # t, r)) (parse_string tl')"
proof -
  have esc: "parse_string (unicode_escape c @ tl') = map_option (\<lambda>(t, r). (c # t, r)) (parse_string tl')"
    by (simp add: unicode_escape_def hex4_unicode_escape)
  show ?thesis
    unfolding quote_unit_def using esc
    by (simp add: unescape_def)
qed

lemma parse_string_quote_body:
  "parse_string (quote_body s @ [0x22] @ rest) = Some (s, rest)"
proof (induction s rule: quote_body.induct)
  case 1
  show ?case by simp
next
  case (2 c)
  show ?case by (simp add: parse_string_quote_unit)
next
  case (3 c d s)
  show ?case
  proof (cases "is_high c \<and> is_low d")
    case True
    then have "c \<noteq> 0x22 \<and> c \<noteq> 0x5C \<and> \<not> c < 0x20 \<and> d \<noteq> 0x22 \<and> d \<noteq> 0x5C \<and> \<not> d < 0x20"
      by (auto simp: is_high_def is_low_def word_le_nat_alt word_less_nat_alt)
    then show ?thesis using True 3 by simp
  next
    case False
    then have q: "quote_body (c # d # s) = quote_unit c @ quote_body (d # s)"
      by auto
    show ?thesis
      unfolding q using 3(2) [OF False]
      by (simp add: parse_string_quote_unit del: quote_body.simps)
  qed
qed

subsection \<open>Notes survive serialising and parsing\<close>

lemma serialize_to_js: "serialize (to_js n) = Some (note_text n)"
  by (simp add: to_js_def note_text_def member_text_def)

lemma skip_ws_non_ws: "\<not> is_json_ws c \<Longrightarrow> skip_ws (c # s) = c # s"
  by (simp add: skip_ws_def)

lemma parse_string_quote: "parse_string (quote_body s @ 0x22 # rest) = Some (s, rest)"
  using parse_string_quote_body [of s rest] by simp

lemma parse_value_quote: "parse_value num (quote v @ rest) = Some (JStr v, rest)"
  by (subst parse_value.simps) (simp add: quote_def skip_ws_def is_json_ws_def parse_string_quote)

lemma parse_members_comma:
  "parse_members num acc (member_text k v @ 0x2C # rest)
     = parse_members num (define_prop k (JStr v) acc) rest"
  by (subst parse_members.simps)
     (simp add: member_text_def quote_def skip_ws_def is_json_ws_def parse_string_quote
        parse_value_quote [unfolded quote_def, simplified])

lemma parse_members_close:
  "parse_members num acc (member_text k v @ 0x7D # rest) = Some (define_prop k (JStr v) acc, rest)"
  by (subst parse_members.simps)
     (simp add: member_text_def quote_def skip_ws_def is_json_ws_def parse_string_quote
        parse_value_quote [unfolded quote_def, simplified])

lemma member_text_first: "\<exists>t. member_text k v = 0x22 # t"
  by (simp add: member_text_def quote_def)

lemma note_props:
  "define_prop (str ''updatedAt'') (JStr e)
    (define_prop (str ''createdAt'') (JStr d)
      (define_prop (str ''content'') (JStr c)
        (define_prop (str ''title'') (JStr b)
          (define_prop (str ''id'') (JStr a) []))))
   = [(str ''id'', JStr a), (str ''title'', JStr b), (str ''content'', JStr c),
      (str ''createdAt'', JStr d), (str ''updatedAt'', JStr e)]"
  by (simp add: define_prop_def array_index_def is_digit_def str_def)

lemma parse_value_note: "parse_value num (note_text n @ rest) = Some (to_js n, rest)"
proof -
  define members where "members =
           member_text (str ''id'') (id' n)
           @ 0x2C # member_text (str ''title'') (note_rec.title n)
           @ 0x2C # member_text (str ''content'') (note_rec.content n)
           @ 0x2C # member_text (str ''createdAt'') (createdAt n)
           @ 0x2C # member_text (str ''updatedAt'') (updatedAt n)
           @ 0x7D # rest"
  have whole: "note_text n @ rest = 0x7B # members"
    by (simp add: note_text_def members_def)
  obtain t where t: "members = 0x22 # t"
    unfolding members_def using member_text_first [of "str ''id''" "id' n"] by auto
  have "parse_members num [] members
        = Some ([(str ''id'', JStr (id' n)), (str ''title'', JStr (note_rec.title n)),
                 (str ''content'', JStr (note_rec.content n)),
                 (str ''createdAt'', JStr (createdAt n)),
                 (str ''updatedAt'', JStr (updatedAt n))], rest)"
    unfolding members_def
    by (simp only: parse_members_comma parse_members_close note_props)
  then have m: "parse_members num [] (0x22 # t) = Some ([(str ''id'', JStr (id' n)), (str ''title'', JStr (note_rec.title n)),
                 (str ''content'', JStr (note_rec.content n)),
                 (str ''createdAt'', JStr (createdAt n)),
                 (str ''updatedAt'', JStr (updatedAt n))], rest)"
    by (simp add: t)
  show ?thesis
    unfolding whole t
    by (subst parse_value.simps) (simp add: m to_js_def skip_ws_def is_json_ws_def)
qed

lemma note_text_first: "\<exists>t. note_text n = 0x7B # t"
  by (simp add: note_text_def)

lemma note_text_nonempty: "note_text n \<noteq> []"
  by (simp add: note_text_def)

lemma parse_elems_notes:
  "ns \<noteq> [] \<Longrightarrow>
   parse_elems num acc (join_comma (map note_text ns) @ 0x5D # rest) = Some (acc @ map to_js ns, rest)"
proof (induction ns arbitrary: acc)
  case Nil
  then show ?case by simp
next
  case (Cons n ns)
  show ?case
  proof (cases ns)
    case Nil
    show ?thesis
      unfolding Nil
      by (subst parse_elems.simps) (simp add: parse_value_note skip_ws_def is_json_ws_def note_text_nonempty)
  next
    case (Cons m ms)
    have ih: "parse_elems num (acc @ [to_js n]) (join_comma (map note_text ns) @ 0x5D # rest)
                = Some ((acc @ [to_js n]) @ map to_js ns, rest)"
      using Cons.IH [of "acc @ [to_js n]"] Cons by simp
    have j: "join_comma (map note_text (n # ns)) = note_text n @ 0x2C # join_comma (map note_text ns)"
      by (simp add: Cons)
    show ?thesis
      unfolding j
      by (subst parse_elems.simps) (simp add: parse_value_note skip_ws_def is_json_ws_def note_text_nonempty ih)
  qed
qed

lemma serialize_elems_notes: "serialize_elems (map to_js ns) = map note_text ns"
  by (induction ns) (simp_all add: serialize_to_js)

lemma JSON_stringify_notes:
  "JSON_stringify (JArr (map to_js ns)) = 0x5B # join_comma (map note_text ns) @ [0x5D]"
  by (simp add: JSON_stringify_def serialize_elems_notes)

lemma join_comma_notes_first: "ns \<noteq> [] \<Longrightarrow> \<exists>t. join_comma (map note_text ns) = 0x7B # t"
proof (cases ns)
  case Nil
  assume "ns \<noteq> []"
  then show ?thesis using Nil by simp
next
  case (Cons n ms)
  obtain t where "note_text n = 0x7B # t" using note_text_first by blast
  then show ?thesis using Cons by (cases ms) simp_all
qed

lemma JSON_parse_stringify_notes:
  "JSON_parse num (JSON_stringify (JArr (map to_js ns))) = Inr (JArr (map to_js ns))"
proof (cases "ns = []")
  case True
  show ?thesis
    unfolding JSON_stringify_notes JSON_parse_def True
    by (subst parse_value.simps) (simp add: skip_ws_def is_json_ws_def)
next
  case False
  obtain t where t: "join_comma (map note_text ns) = 0x7B # t"
    using join_comma_notes_first [OF False] by blast
  have "parse_elems num [] (join_comma (map note_text ns) @ 0x5D # []) = Some ([] @ map to_js ns, [])"
    using False by (rule parse_elems_notes)
  then have e: "parse_elems num [] (0x7B # t @ [0x5D]) = Some (map to_js ns, [])"
    by (simp add: t)
  show ?thesis
    unfolding JSON_stringify_notes JSON_parse_def t
    by (subst parse_value.simps) (simp add: e skip_ws_def is_json_ws_def)
qed

text \<open>The equations that evaluate the parser on a given text.\<close>

lemmas json_eval =
  JSON_parse_def parse_value.simps parse_elems.simps parse_members.simps skip_ws_def
  is_json_ws_def is_digit_def hex_value_def unescape_def hex4_def scan_int_def scan_frac_def
  scan_exp_def scan_number_def dec_value_def array_index_def define_prop_def

section \<open>The handlers on notes of the data model\<close>

lemma get_prop_to_js:
  "get_prop (to_js n) (str ''id'') = Inr (JStr (id' n))"
  "get_prop (to_js n) (str ''title'') = Inr (JStr (note_rec.title n))"
  "get_prop (to_js n) (str ''content'') = Inr (JStr (note_rec.content n))"
  "get_prop (to_js n) (str ''createdAt'') = Inr (JStr (createdAt n))"
  "get_prop (to_js n) (str ''updatedAt'') = Inr (JStr (updatedAt n))"
  by (simp_all add: to_js_def str_def)

lemma includes_str_Nil: "includes_str s [] = True"
  by (cases s) simp_all

lemma matches_to_js:
  "matches lower q (to_js n) =
     Inr (includes_str (lower (note_rec.title n)) q \<or> includes_str (lower (note_rec.content n)) q)"
  by (simp add: matches_def get_prop_to_js)

lemma filter_err_map:
  "(\<And>x. p (f x) = Inr (P x)) \<Longrightarrow> filter_err p (map f xs) = Inr (map f (filter P xs))"
  by (induction xs) auto

lemma map_err_map:
  "(\<And>x. g (f x) = Inr (f (h x))) \<Longrightarrow> map_err g (map f xs) = Inr (map f (map h xs))"
  by (induction xs) auto

lemma find_err_map:
  "(\<And>x. p (f x) = Inr (P x)) \<Longrightarrow> find_err p (map f xs) = Inr (map_option f (find P xs))"
  by (induction xs) auto

lemma update_note_to_js:
  "update_note now i v (to_js n) = Inr (to_js (edit_note now i v n))"
  by (simp add: update_note_def edit_note_def to_js_def str_def)

lemma has_id_to_js: "has_id i (to_js n) = Inr (id' n = i)"
  by (simp add: has_id_def get_prop_to_js)

lemma has_other_id_to_js: "has_other_id i (to_js n) = Inr (id' n \<noteq> i)"
  by (simp add: has_other_id_def get_prop_to_js)

lemma delete_prompt_to_js: "\<exists>msg. delete_prompt (map_option to_js r) = Inr msg"
  by (cases r) (simp_all add: delete_prompt_def get_prop_to_js)

lemma isEdited_to_js: "isEdited (to_js m) = Inr (createdAt m \<noteq> updatedAt m)"
  by (simp add: isEdited_def get_prop_to_js)

lemma timestamps_ordered_to_js: "timestamps_ordered (to_js m) = ts_le (createdAt m) (updatedAt m)"
  by (simp add: timestamps_ordered_def get_prop_to_js)

text \<open>The spread of \<^verbatim>\<open>handleUpdate\<close> is applied to objects only.\<close>

lemma update_note_non_object:
  "(\<forall>kvs. n \<noteq> JObj kvs) \<Longrightarrow> update_note now i v n = Inr n \<or> update_note now i v n = Inl TypeError"
  by (cases n) (simp_all add: update_note_def)

lemma handleCreate_to_js:
  "handleCreate env v s = s\<lparr>notes := to_js (created_note env v) # notes s, isAdding := False\<rparr>"
  by (simp add: handleCreate_def created_note_def to_js_def Let_def)

lemma handleUpdate_to_js:
  "handleUpdate now i v (s\<lparr>notes := map to_js ns\<rparr>) =
     Inr (s\<lparr>notes := map to_js (map (edit_note now i v) ns), editingId := None\<rparr>)"
proof -
  have "map_err (update_note now i v) (map to_js ns) = Inr (map to_js (map (edit_note now i v) ns))"
    by (rule map_err_map) (rule update_note_to_js)
  then show ?thesis
    by (simp add: handleUpdate_def)
qed

lemma handleDelete_to_js:
  "handleDelete (\<lambda>msg. ok) i (s\<lparr>notes := map to_js ns\<rparr>) =
     Inr (s\<lparr>notes := map to_js (if ok then filter (\<lambda>n. id' n \<noteq> i) ns else ns)\<rparr>)"
proof -
  have f: "find_err (has_id i) (map to_js ns) = Inr (map_option to_js (find (\<lambda>n. id' n = i) ns))"
    by (rule find_err_map) (rule has_id_to_js)
  obtain msg where m: "delete_prompt (map_option to_js (find (\<lambda>n. id' n = i) ns)) = Inr msg"
    using delete_prompt_to_js by blast
  have g: "filter_err (has_other_id i) (map to_js ns)
             = Inr (map to_js (filter (\<lambda>n. id' n \<noteq> i) ns))"
    by (rule filter_err_map) (rule has_other_id_to_js)
  show ?thesis
    by (simp add: handleDelete_def f m g)
qed

lemma length_filter_distinct_id:
  "distinct (map f xs) \<Longrightarrow> i \<in> set (map f xs) \<Longrightarrow>
   length (filter (\<lambda>x. f x \<noteq> i) xs) + 1 = length xs"
proof (induction xs)
  case Nil
  then show ?case by simp
next
  case (Cons x xs)
  show ?case
  proof (cases "f x = i")
    case True
    then have "i \<notin> f ` set xs" using Cons.prems by auto
    then have "filter (\<lambda>x. f x \<noteq> i) xs = xs"
      by (auto simp: filter_id_conv)
    then show ?thesis using True by simp
  next
    case False
    then show ?thesis using Cons by auto
  qed
qed

subsection \<open>Sequences of operations\<close>

lemma exec_to_js:
  "\<exists>s'. exec x (s\<lparr>notes := map to_js ns\<rparr>) = Inr (s'\<lparr>notes := map to_js (notes_after x ns)\<rparr>)"
proof (cases x)
  case (Create env v)
  have "exec x (s\<lparr>notes := map to_js ns\<rparr>) =
          Inr ((s\<lparr>isAdding := False\<rparr>)\<lparr>notes := map to_js (notes_after x ns)\<rparr>)"
    by (simp add: Create handleCreate_to_js)
  then show ?thesis by blast
next
  case (Update now i v)
  have "exec x (s\<lparr>notes := map to_js ns\<rparr>) =
          Inr ((s\<lparr>editingId := None\<rparr>)\<lparr>notes := map to_js (notes_after x ns)\<rparr>)"
    by (simp add: Update handleUpdate_to_js)
  then show ?thesis by blast
next
  case (Delete ok i)
  have "exec x (s\<lparr>notes := map to_js ns\<rparr>) = Inr (s\<lparr>notes := map to_js (notes_after x ns)\<rparr>)"
    by (simp add: Delete handleDelete_to_js)
  then show ?thesis by blast
qed

lemma run_to_js:
  "\<exists>s'. run xs (s\<lparr>notes := map to_js ns\<rparr>)
          = Inr (s'\<lparr>notes := map to_js (notes_after_all xs ns)\<rparr>)"
proof (induction xs arbitrary: s ns)
  case Nil
  show ?case by auto
next
  case (Cons x xs)
  obtain s1 where 1:
    "exec x (s\<lparr>notes := map to_js ns\<rparr>) = Inr (s1\<lparr>notes := map to_js (notes_after x ns)\<rparr>)"
    using exec_to_js by blast
  obtain s2 where "run xs (s1\<lparr>notes := map to_js (notes_after x ns)\<rparr>)
      = Inr (s2\<lparr>notes := map to_js (notes_after_all xs (notes_after x ns))\<rparr>)"
    using Cons.IH by blast
  then show ?case using 1 by auto
qed

text \<open>
  With a clock that never runs backwards, every note keeps \<open>createdAt \<le> updatedAt\<close>; the
  induction carries along that no note was created after the latest reading.
\<close>

lemma ordered_after:
  assumes "\<forall>n \<in> set ns. createdAt n \<le> updatedAt n \<and> createdAt n \<le> t0"
    and "sorted (t0 # List.map_filter reading xs)"
  shows "\<forall>m \<in> set (notes_after_all xs ns). createdAt m \<le> updatedAt m"
  using assms
proof (induction xs arbitrary: ns t0)
  case Nil
  then show ?case by simp
next
  case (Cons x xs)
  show ?case
  proof (cases x)
    case (Create env v)
    let ?t = "now_iso env"
    have le: "t0 \<le> ?t" and srt: "sorted (?t # List.map_filter reading xs)"
      using Cons.prems(2) by (simp_all add: Create)
    have "\<forall>n \<in> set (notes_after x ns). createdAt n \<le> updatedAt n \<and> createdAt n \<le> ?t"
      using Cons.prems(1) le by (auto simp: Create created_note_def)
    then show ?thesis using Cons.IH[OF _ srt] by simp
  next
    case (Update now i v)
    have le: "t0 \<le> now" and srt: "sorted (now # List.map_filter reading xs)"
      using Cons.prems(2) by (simp_all add: Update)
    have "\<forall>n \<in> set (notes_after x ns). createdAt n \<le> updatedAt n \<and> createdAt n \<le> now"
      using Cons.prems(1) le by (auto simp: Update edit_note_def)
    then show ?thesis using Cons.IH[OF _ srt] by simp
  next
    case (Delete ok i)
    have srt: "sorted (t0 # List.map_filter reading xs)"
      using Cons.prems(2) by (simp add: Delete)
    have "\<forall>n \<in> set (notes_after x ns). createdAt n \<le> updatedAt n \<and> createdAt n \<le> t0"
      using Cons.prems(1) by (auto simp: Delete)
    then show ?thesis using Cons.IH[OF _ srt] by simp
  qed
qed

text \<open>A note whose id no Update names is as it was, or was created with equal timestamps.\<close>

lemma unedited_after:
  assumes "\<not> list_ex (edits i) xs"
  shows "\<forall>m \<in> set (notes_after_all xs ns).
           id' m = i \<longrightarrow> m \<in> set ns \<or> createdAt m = updatedAt m"
  using assms
proof (induction xs arbitrary: ns)
  case Nil
  then show ?case by simp
next
  case (Cons x xs)
  have ih: "\<forall>m \<in> set (notes_after_all xs (notes_after x ns)).
              id' m = i \<longrightarrow> m \<in> set (notes_after x ns) \<or> createdAt m = updatedAt m"
    using Cons by simp
  have "\<forall>m \<in> set (notes_after x ns). id' m = i \<longrightarrow> m \<in> set ns \<or> createdAt m = updatedAt m"
    using Cons.prems by (cases x) (auto simp: created_note_def edit_note_def)
  then show ?case using ih by auto
qed

text \<open>A note that is followed through the operations is in the resulting collection.\<close>

lemma follow_member:
  "n \<in> set ns \<Longrightarrow> follow xs n = Some m \<Longrightarrow> m \<in> set (notes_after_all xs ns)"
proof (induction xs arbitrary: ns n)
  case Nil
  then show ?case by simp
next
  case (Cons x xs)
  show ?case
  proof (cases x)
    case (Create env v)
    have "n \<in> set (notes_after x ns)" using Cons.prems(1) by (simp add: Create)
    moreover have "follow xs n = Some m" using Cons.prems(2) by (simp add: Create)
    ultimately show ?thesis using Cons.IH by simp
  next
    case (Update now i v)
    have "edit_note now i v n \<in> set (notes_after x ns)" using Cons.prems(1) by (simp add: Update)
    moreover have "follow xs (edit_note now i v n) = Some m"
      using Cons.prems(2) by (simp add: Update)
    ultimately show ?thesis using Cons.IH by simp
  next
    case (Delete ok i)
    have keep: "\<not> (ok \<and> id' n = i)" and f: "follow xs n = Some m"
      using Cons.prems(2) by (auto simp: Delete split: if_splits)
    have "n \<in> set (notes_after x ns)" using Cons.prems(1) keep by (auto simp: Delete)
    then show ?thesis using f Cons.IH by simp
  qed
qed

text \<open>
  Its id and \<open>createdAt\<close> are as they were, and its \<open>updatedAt\<close> is the reading of the last
  Update that named its id.
\<close>

lemma follow_fields:
  "follow xs n = Some m \<Longrightarrow>
   id' m = id' n \<and> createdAt m = createdAt n
   \<and> updatedAt m = (case last_edit (id' n) xs of None \<Rightarrow> updatedAt n | Some t \<Rightarrow> t)"
proof (induction xs arbitrary: n)
  case Nil
  then show ?case by simp
next
  case (Cons x xs)
  show ?case
  proof (cases x)
    case (Create env v)
    then have "follow xs n = Some m" using Cons.prems by simp
    then show ?thesis using Cons.IH [of n] by (simp add: Create split: option.splits)
  next
    case (Update now i v)
    then have f: "follow xs (edit_note now i v n) = Some m" using Cons.prems by simp
    have e: "id' (edit_note now i v n) = id' n" "createdAt (edit_note now i v n) = createdAt n"
      "updatedAt (edit_note now i v n) = (if i = id' n then now else updatedAt n)"
      by (auto simp: edit_note_def)
    show ?thesis
      using Cons.IH [OF f] e by (auto simp: Update split: option.splits)
  next
    case (Delete ok i)
    then have "follow xs n = Some m" using Cons.prems by (simp split: if_splits)
    then show ?thesis using Cons.IH [of n] by (simp add: Delete split: option.splits)
  qed
qed


section \<open>The specified properties\<close>

subsection \<open>Create\<close>

text \<open>
  C1 (as amended).  For every submitted form value whose title is non-empty after trimming,
  Create adds exactly one new note at the head of the collection, all notes that were
  there follow in their previous order, the title and the content of the new note are
  the trimmed fields, and its \<open>createdAt\<close> equals its \<open>updatedAt\<close> (the clock reading).
  Its id is the string that \<open>uid\<close> builds from the clock and the random draw; nothing
  compares it with the ids in the collection.
\<close>

theorem create_prepends_note:
  assumes "trim t \<noteq> []"
  shows "submit t (Some c) (\<lambda>v. handleCreate env v s) =
           Accepted (s\<lparr>notes :=
                         to_js \<lparr>id' = uid (date_now env) (random36 env),
                                title = trim t,
                                content = trim c,
                                createdAt = now_iso env,
                                updatedAt = now_iso env\<rparr> # notes s,
                       isAdding := False\<rparr>)"
  using assms by (simp add: submit_def handleCreate_def to_js_def content_or_empty_def Let_def)

theorem create_prepends_note_witness:
  "trim (str ''  Groceries '') \<noteq> [] \<and>
   submit (str ''  Groceries '') (Some (str ''milk, eggs ''))
     (\<lambda>v. handleCreate
            \<lparr>now_iso = str ''2025-01-01T10:00:00.000Z'', date_now = str ''1735725600000'',
            random36 = str ''0.4fzyo82mvyr''\<rparr> v init_state) =
   Accepted \<lparr>notes = [to_js
            \<lparr>id' = str ''1735725600000-4fzyo8'', title = str ''Groceries'',
            content = str ''milk, eggs'',
            createdAt = str ''2025-01-01T10:00:00.000Z'',
            updatedAt = str ''2025-01-01T10:00:00.000Z''\<rparr>],
             query = [], isAdding = False, editingId = None\<rparr>"
proof -
  have h: "trim (str ''  Groceries '') \<noteq> []"
    by (simp add: trim_def str_def is_ws_def)
  show ?thesis
    using h create_prepends_note [OF h, where c = "str ''milk, eggs ''" and s = init_state
        and env = "\<lparr>now_iso = str ''2025-01-01T10:00:00.000Z'', date_now = str ''1735725600000'',
            random36 = str ''0.4fzyo82mvyr''\<rparr>"]
    by (simp add: init_state_def uid_def slice_def trim_def str_def is_ws_def)
qed

text \<open>
  The id need not be fresh: a second note created in the same millisecond with a random
  draw that has the same first six base-36 digits gets the id of the first.
\<close>

theorem create_id_not_fresh:
  "trim (str ''Taxes'') \<noteq> []
   \<and> uid (str ''1735725600000'') (str ''0.4fzyo8zzzzz'') = str ''1735725600000-4fzyo8''
   \<and> notes (handleCreate
            \<lparr>now_iso = str ''2025-01-01T10:00:00.000Z'', date_now = str ''1735725600000'',
             random36 = str ''0.4fzyo8zzzzz''\<rparr>
            \<lparr>form_values.title = str ''Taxes'',
             form_values.content = Some (str ''file by April'')\<rparr>
            (init_state\<lparr>notes :=
               [to_js \<lparr>id' = str ''1735725600000-4fzyo8'', title = str ''Groceries'',
                       content = str ''milk, eggs'',
                       createdAt = str ''2025-01-01T10:00:00.000Z'',
                       updatedAt = str ''2025-01-01T10:00:00.000Z''\<rparr>]\<rparr>))
     = [to_js \<lparr>id' = str ''1735725600000-4fzyo8'', title = str ''Taxes'',
               content = str ''file by April'',
               createdAt = str ''2025-01-01T10:00:00.000Z'',
               updatedAt = str ''2025-01-01T10:00:00.000Z''\<rparr>,
        to_js \<lparr>id' = str ''1735725600000-4fzyo8'', title = str ''Groceries'',
               content = str ''milk, eggs'',
               createdAt = str ''2025-01-01T10:00:00.000Z'',
               updatedAt = str ''2025-01-01T10:00:00.000Z''\<rparr>]"
  by (simp add: handleCreate_def init_state_def to_js_def uid_def slice_def trim_def is_ws_def
      content_or_empty_def str_def Let_def)

subsection \<open>Update\<close>

text \<open>
  C2 (as amended).  For every collection of notes and every id, Update(id, values) replaces
  the title and the content of the notes that carry the id by the trimmed values and sets
  their \<open>updatedAt\<close> to the clock reading of the edit; ids and \<open>createdAt\<close> are
  unchanged, every note with another id is unchanged, and so are the length and the
  order of the collection.  The new \<open>updatedAt\<close> is at least the previous one whenever
  the clock reading is.
\<close>

theorem update_edits_matching_notes:
  "handleUpdate now i v (s\<lparr>notes := map to_js ns\<rparr>) =
     Inr (s\<lparr>notes := map to_js (map (edit_note now i v) ns), editingId := None\<rparr>)
   \<and> map id' (map (edit_note now i v) ns) = map id' ns
   \<and> map createdAt (map (edit_note now i v) ns) = map createdAt ns
   \<and> (\<forall>n \<in> set ns. id' n \<noteq> i \<longrightarrow> edit_note now i v n = n)
   \<and> (\<forall>n \<in> set ns. id' n = i \<longrightarrow>
         edit_note now i v n =
           n\<lparr>note_rec.title := trim (form_values.title v),
              note_rec.content := content_or_empty (form_values.content v),
              updatedAt := now\<rparr>)
   \<and> (\<forall>n \<in> set ns. id' n = i \<and> ts_le (updatedAt n) now \<longrightarrow>
         ts_le (updatedAt n) (updatedAt (edit_note now i v n)))"
proof -
  have "map id' (map (edit_note now i v) ns) = map id' ns"
    by (simp add: edit_note_def)
  moreover have "map createdAt (map (edit_note now i v) ns) = map createdAt ns"
    by (simp add: edit_note_def)
  ultimately show ?thesis
    using handleUpdate_to_js [where now = now and i = i and v = v and s = s and ns = ns]
    by (simp add: edit_note_def)
qed

theorem update_edits_matching_notes_witness:
  "handleUpdate (str ''2025-01-01T10:05:00.000Z'') (str ''1735725600000-4fzyo8'')
     \<lparr>form_values.title = str ''Groceries'', form_values.content = Some (str '' milk, eggs, bread'')\<rparr>
     (init_state\<lparr>notes := map to_js
        [\<lparr>id' = str ''1735725660000-k2j9xq'', title = str ''Taxes'',
            content = str ''file by April'',
            createdAt = str ''2025-01-01T10:01:00.000Z'',
            updatedAt = str ''2025-01-01T10:01:00.000Z''\<rparr>,
         \<lparr>id' = str ''1735725600000-4fzyo8'', title = str ''Groceries'',
            content = str ''milk, eggs'',
            createdAt = str ''2025-01-01T10:00:00.000Z'',
            updatedAt = str ''2025-01-01T10:00:00.000Z''\<rparr>]\<rparr>)
   = Inr (init_state\<lparr>notes := map to_js
        [\<lparr>id' = str ''1735725660000-k2j9xq'', title = str ''Taxes'',
            content = str ''file by April'',
            createdAt = str ''2025-01-01T10:01:00.000Z'',
            updatedAt = str ''2025-01-01T10:01:00.000Z''\<rparr>,
         \<lparr>id' = str ''1735725600000-4fzyo8'', title = str ''Groceries'',
            content = str ''milk, eggs, bread'',
            createdAt = str ''2025-01-01T10:00:00.000Z'',
            updatedAt = str ''2025-01-01T10:05:00.000Z''\<rparr>],
       editingId := None\<rparr>)
   \<and> ts_le (str ''2025-01-01T10:00:00.000Z'') (str ''2025-01-01T10:05:00.000Z'')"
  using update_edits_matching_notes [where now = "str ''2025-01-01T10:05:00.000Z''"
      and i = "str ''1735725600000-4fzyo8''" and s = init_state and v =
      "\<lparr>form_values.title = str ''Groceries'', form_values.content = Some (str '' milk, eggs, bread'')\<rparr>"
      and ns = "[\<lparr>id' = str ''1735725660000-k2j9xq'', title = str ''Taxes'',
            content = str ''file by April'',
            createdAt = str ''2025-01-01T10:01:00.000Z'',
            updatedAt = str ''2025-01-01T10:01:00.000Z''\<rparr>,
        \<lparr>id' = str ''1735725600000-4fzyo8'', title = str ''Groceries'',
            content = str ''milk, eggs'',
            createdAt = str ''2025-01-01T10:00:00.000Z'',
            updatedAt = str ''2025-01-01T10:00:00.000Z''\<rparr>]"]
  by (simp add: edit_note_def ts_le_def trim_def is_ws_def content_or_empty_def str_def)

text \<open>
  The clock is read, not compared: after the clock was set back, an edit stores an
  \<open>updatedAt\<close> before the previous one (and before \<open>createdAt\<close>).
\<close>

theorem update_clock_set_back:
  "handleUpdate (str ''2025-01-01T09:59:59.000Z'') (str ''1735725600000-4fzyo8'')
     \<lparr>form_values.title = str ''Groceries'', form_values.content = Some (str '' milk, eggs, bread'')\<rparr>
     (init_state\<lparr>notes := [to_js
            \<lparr>id' = str ''1735725600000-4fzyo8'', title = str ''Groceries'',
            content = str ''milk, eggs'',
            createdAt = str ''2025-01-01T10:00:00.000Z'',
            updatedAt = str ''2025-01-01T10:00:00.000Z''\<rparr>]\<rparr>)
   = Inr (init_state\<lparr>notes := [to_js
            \<lparr>id' = str ''1735725600000-4fzyo8'', title = str ''Groceries'',
            content = str ''milk, eggs, bread'',
            createdAt = str ''2025-01-01T10:00:00.000Z'',
            updatedAt = str ''2025-01-01T09:59:59.000Z''\<rparr>],
       editingId := None\<rparr>)
   \<and> \<not> ts_le (str ''2025-01-01T10:00:00.000Z'') (str ''2025-01-01T09:59:59.000Z'')"
  by (simp add: ts_le_def handleCreate_def handleUpdate_def update_note_def handleDelete_def has_id_def has_other_id_def
      delete_prompt_def init_state_def to_js_def uid_def slice_def trim_def is_ws_def
      content_or_empty_def str_def Let_def)

subsection \<open>Delete\<close>

text \<open>
  C3 (as amended).  For every collection of notes, Delete(id) with the confirmation
  accepted removes the notes that carry the id and no other, keeping the order of the
  rest; the size decreases by the number of notes that carry the id, which is exactly
  one when the ids of the collection are pairwise distinct and the id is among them.
  With the confirmation declined the collection is unchanged.
\<close>

theorem delete_removes_notes_with_id:
  "handleDelete (\<lambda>msg. ok) i (s\<lparr>notes := map to_js ns\<rparr>) =
     Inr (s\<lparr>notes := map to_js (if ok then filter (\<lambda>n. id' n \<noteq> i) ns else ns)\<rparr>)
   \<and> length (filter (\<lambda>n. id' n \<noteq> i) ns) + length (filter (\<lambda>n. id' n = i) ns) = length ns
   \<and> (distinct (map id' ns) \<and> i \<in> set (map id' ns) \<longrightarrow>
        length (filter (\<lambda>n. id' n \<noteq> i) ns) + 1 = length ns)"
proof -
  have "length (filter (\<lambda>n. id' n \<noteq> i) ns) + length (filter (\<lambda>n. id' n = i) ns) = length ns"
    using sum_length_filter_compl [of "\<lambda>n. id' n = i" ns] by simp
  then show ?thesis
    using handleDelete_to_js [where ok = ok and i = i and s = s and ns = ns]
      length_filter_distinct_id [of id' ns i] by blast
qed

theorem delete_removes_notes_with_id_witness:
  "distinct (map id'
        [\<lparr>id' = str ''1735725660000-k2j9xq'', title = str ''Taxes'',
            content = str ''file by April'',
            createdAt = str ''2025-01-01T10:01:00.000Z'',
            updatedAt = str ''2025-01-01T10:01:00.000Z''\<rparr>,
         \<lparr>id' = str ''1735725600000-4fzyo8'', title = str ''Groceries'',
            content = str ''milk, eggs'',
            createdAt = str ''2025-01-01T10:00:00.000Z'',
            updatedAt = str ''2025-01-01T10:00:00.000Z''\<rparr>])
   \<and> str ''1735725600000-4fzyo8'' \<in> set (map id'
        [\<lparr>id' = str ''1735725660000-k2j9xq'', title = str ''Taxes'',
            content = str ''file by April'',
            createdAt = str ''2025-01-01T10:01:00.000Z'',
            updatedAt = str ''2025-01-01T10:01:00.000Z''\<rparr>,
         \<lparr>id' = str ''1735725600000-4fzyo8'', title = str ''Groceries'',
            content = str ''milk, eggs'',
            createdAt = str ''2025-01-01T10:00:00.000Z'',
            updatedAt = str ''2025-01-01T10:00:00.000Z''\<rparr>])
   \<and> handleDelete (\<lambda>msg. True) (str ''1735725600000-4fzyo8'')
       (init_state\<lparr>notes := map to_js
        [\<lparr>id' = str ''1735725660000-k2j9xq'', title = str ''Taxes'',
            content = str ''file by April'',
            createdAt = str ''2025-01-01T10:01:00.000Z'',
            updatedAt = str ''2025-01-01T10:01:00.000Z''\<rparr>,
         \<lparr>id' = str ''1735725600000-4fzyo8'', title = str ''Groceries'',
            content = str ''milk, eggs'',
            createdAt = str ''2025-01-01T10:00:00.000Z'',
            updatedAt = str ''2025-01-01T10:00:00.000Z''\<rparr>]\<rparr>)
     = Inr (init_state\<lparr>notes := map to_js
        [\<lparr>id' = str ''1735725660000-k2j9xq'', title = str ''Taxes'',
            content = str ''file by April'',
            createdAt = str ''2025-01-01T10:01:00.000Z'',
            updatedAt = str ''2025-01-01T10:01:00.000Z''\<rparr>]\<rparr>)
   \<and> handleDelete (\<lambda>msg. False) (str ''1735725600000-4fzyo8'')
       (init_state\<lparr>notes := map to_js
        [\<lparr>id' = str ''1735725660000-k2j9xq'', title = str ''Taxes'',
            content = str ''file by April'',
            createdAt = str ''2025-01-01T10:01:00.000Z'',
            updatedAt = str ''2025-01-01T10:01:00.000Z''\<rparr>,
         \<lparr>id' = str ''1735725600000-4fzyo8'', title = str ''Groceries'',
            content = str ''milk, eggs'',
            createdAt = str ''2025-01-01T10:00:00.000Z'',
            updatedAt = str ''2025-01-01T10:00:00.000Z''\<rparr>]\<rparr>)
     = Inr (init_state\<lparr>notes := map to_js
        [\<lparr>id' = str ''1735725660000-k2j9xq'', title = str ''Taxes'',
            content = str ''file by April'',
            createdAt = str ''2025-01-01T10:01:00.000Z'',
            updatedAt = str ''2025-01-01T10:01:00.000Z''\<rparr>,
         \<lparr>id' = str ''1735725600000-4fzyo8'', title = str ''Groceries'',
            content = str ''milk, eggs'',
            createdAt = str ''2025-01-01T10:00:00.000Z'',
            updatedAt = str ''2025-01-01T10:00:00.000Z''\<rparr>]\<rparr>)"
  using delete_removes_notes_with_id [where ok = True and i = "str ''1735725600000-4fzyo8''"
      and s = init_state and ns =
      "[\<lparr>id' = str ''1735725660000-k2j9xq'', title = str ''Taxes'',
            content = str ''file by April'',
            createdAt = str ''2025-01-01T10:01:00.000Z'',
            updatedAt = str ''2025-01-01T10:01:00.000Z''\<rparr>,
        \<lparr>id' = str ''1735725600000-4fzyo8'', title = str ''Groceries'',
            content = str ''milk, eggs'',
            createdAt = str ''2025-01-01T10:00:00.000Z'',
            updatedAt = str ''2025-01-01T10:00:00.000Z''\<rparr>]"]
    delete_removes_notes_with_id [where ok = False and i = "str ''1735725600000-4fzyo8''"
      and s = init_state and ns =
      "[\<lparr>id' = str ''1735725660000-k2j9xq'', title = str ''Taxes'',
            content = str ''file by April'',
            createdAt = str ''2025-01-01T10:01:00.000Z'',
            updatedAt = str ''2025-01-01T10:01:00.000Z''\<rparr>,
        \<lparr>id' = str ''1735725600000-4fzyo8'', title = str ''Groceries'',
            content = str ''milk, eggs'',
            createdAt = str ''2025-01-01T10:00:00.000Z'',
            updatedAt = str ''2025-01-01T10:00:00.000Z''\<rparr>]"]
  by (simp add: str_def)

text \<open>Two notes with one id, as a Create with a colliding id leaves them, are removed
  together.\<close>

theorem delete_removes_both_duplicates:
  "handleDelete (\<lambda>msg. True) (str ''1735725600000-4fzyo8'')
     (init_state\<lparr>notes := [to_js
            \<lparr>id' = str ''1735725600000-4fzyo8'', title = str ''Taxes'',
            content = str ''file by April'',
            createdAt = str ''2025-01-01T10:00:00.000Z'',
            updatedAt = str ''2025-01-01T10:00:00.000Z''\<rparr>,
      to_js
            \<lparr>id' = str ''1735725600000-4fzyo8'', title = str ''Groceries'',
            content = str ''milk, eggs'',
            createdAt = str ''2025-01-01T10:00:00.000Z'',
            updatedAt = str ''2025-01-01T10:00:00.000Z''\<rparr>]\<rparr>)
   = Inr (init_state\<lparr>notes := []\<rparr>)"
  by (simp add: handleCreate_def handleUpdate_def update_note_def handleDelete_def has_id_def has_other_id_def
      delete_prompt_def init_state_def to_js_def uid_def slice_def trim_def is_ws_def
      content_or_empty_def str_def Let_def)

subsection \<open>Filter\<close>

text \<open>
  C4 (as amended).  For every collection of notes and every query, the filtered view is
  the subsequence of the notes whose title or content contains the trimmed query as a
  case-insensitive substring (both sides lowered); it is a subsequence of the full
  collection, in its order; and when the query is empty or only whitespace it is the
  full collection.
\<close>

theorem filtered_is_trimmed_match:
  "filtered lower (map to_js ns) q =
     Inr (map to_js (filter (\<lambda>n. includes_str (lower (note_rec.title n)) (lower (trim q))
                               \<or> includes_str (lower (note_rec.content n)) (lower (trim q))) ns))
   \<and> (\<exists>vis. filtered lower (map to_js ns) q = Inr vis \<and> subseq vis (map to_js ns))
   \<and> (lower [] = [] \<and> trim q = [] \<longrightarrow> filtered lower (map to_js ns) q = Inr (map to_js ns))"
proof -
  let ?P = "\<lambda>n. includes_str (lower (note_rec.title n)) (lower (trim q))
                 \<or> includes_str (lower (note_rec.content n)) (lower (trim q))"
  have a: "filtered lower (map to_js ns) q = Inr (map to_js (filter ?P ns))"
  proof (cases "lower (trim q) = []")
    case True
    then show ?thesis by (simp add: filtered_def includes_str_Nil Let_def)
  next
    case False
    have "filter_err (matches lower (lower (trim q))) (map to_js ns)
            = Inr (map to_js (filter ?P ns))"
      by (rule filter_err_map) (rule matches_to_js)
    then show ?thesis using False by (simp add: filtered_def Let_def)
  qed
  have b: "subseq (map to_js (filter ?P ns)) (map to_js ns)"
    by (simp add: subseq_map)
  have c: "lower [] = [] \<and> trim q = [] \<longrightarrow> filtered lower (map to_js ns) q = Inr (map to_js ns)"
    by (simp add: filtered_def Let_def)
  show ?thesis using a b c by simp
qed

theorem filtered_is_trimmed_match_witness:
  "ascii_lower [] = [] \<and> trim (str ''  '') = []
   \<and> filtered ascii_lower (map to_js
        [\<lparr>id' = str ''1735725660000-k2j9xq'', title = str ''Taxes'',
            content = str ''file by April'',
            createdAt = str ''2025-01-01T10:01:00.000Z'',
            updatedAt = str ''2025-01-01T10:01:00.000Z''\<rparr>,
         \<lparr>id' = str ''1735725600000-4fzyo8'', title = str ''Groceries'',
            content = str ''milk, eggs'',
            createdAt = str ''2025-01-01T10:00:00.000Z'',
            updatedAt = str ''2025-01-01T10:00:00.000Z''\<rparr>]) (str ''  '')
     = Inr (map to_js
        [\<lparr>id' = str ''1735725660000-k2j9xq'', title = str ''Taxes'',
            content = str ''file by April'',
            createdAt = str ''2025-01-01T10:01:00.000Z'',
            updatedAt = str ''2025-01-01T10:01:00.000Z''\<rparr>,
         \<lparr>id' = str ''1735725600000-4fzyo8'', title = str ''Groceries'',
            content = str ''milk, eggs'',
            createdAt = str ''2025-01-01T10:00:00.000Z'',
            updatedAt = str ''2025-01-01T10:00:00.000Z''\<rparr>])"
  using filtered_is_trimmed_match [where lower = ascii_lower and q = "str ''  ''" and ns =
      "[\<lparr>id' = str ''1735725660000-k2j9xq'', title = str ''Taxes'',
            content = str ''file by April'',
            createdAt = str ''2025-01-01T10:01:00.000Z'',
            updatedAt = str ''2025-01-01T10:01:00.000Z''\<rparr>,
        \<lparr>id' = str ''1735725600000-4fzyo8'', title = str ''Groceries'',
            content = str ''milk, eggs'',
            createdAt = str ''2025-01-01T10:00:00.000Z'',
            updatedAt = str ''2025-01-01T10:00:00.000Z''\<rparr>]"]
  by (simp add: ascii_lower_def trim_def is_ws_def str_def)

text \<open>
  The query as typed, with a trailing space, occurs in neither the title nor the content
  of the note, which is in the view all the same.
\<close>

theorem filtered_untrimmed_query:
  "filtered ascii_lower
     [to_js
            \<lparr>id' = str ''1735725600000-4fzyo8'', title = str ''Groceries'',
            content = str ''milk, eggs'',
            createdAt = str ''2025-01-01T10:00:00.000Z'',
            updatedAt = str ''2025-01-01T10:00:00.000Z''\<rparr>]
     (str ''Eggs '')
   = Inr [to_js
            \<lparr>id' = str ''1735725600000-4fzyo8'', title = str ''Groceries'',
            content = str ''milk, eggs'',
            createdAt = str ''2025-01-01T10:00:00.000Z'',
            updatedAt = str ''2025-01-01T10:00:00.000Z''\<rparr>]
   \<and> \<not> includes_str (ascii_lower (str ''Groceries'')) (ascii_lower (str ''Eggs ''))
   \<and> \<not> includes_str (ascii_lower (str ''milk, eggs'')) (ascii_lower (str ''Eggs ''))"
  by (simp add: filtered_def matches_def to_js_def ascii_lower_def trim_def is_ws_def str_def)

text \<open>
  C10.  The search query is trimmed before matching: for every collection and every query
  string \<open>q\<close>, whatever the elements of the collection are and whatever the case mapping
  is, filtering with \<open>q\<close> gives the same result (the same list or the same exception) as
  filtering with the trimmed \<open>q\<close>.
\<close>

theorem filtered_trim_query: "filtered lower ns q = filtered lower ns (trim q)"
  by (simp add: filtered_def trim_idem)

subsection \<open>Timestamps\<close>

text \<open>
  C5 (as amended).  Timestamps are the strings that \<^verbatim>\<open>toISOString\<close> writes, compared as
  strings, which is their order in time for the years 0000 to 9999.  Every sequence of
  Create, Update and Delete on a collection of notes runs without exception.  If every
  note of the starting collection has \<open>createdAt \<le> updatedAt\<close> and was created no later
  than \<open>start\<close>, and the clock readings of the operations never decrease from \<open>start\<close>
  on, then every note of the resulting collection has \<open>createdAt \<le> updatedAt\<close>.  A note
  that is still in the collection keeps its id and its \<open>createdAt\<close>, and its \<open>updatedAt\<close>
  is the reading of the last Update that named its id, or what it was when there is
  none.  So a note whose timestamps were equal, as Create leaves them, has equal
  timestamps exactly when it has never been edited or the reading of its last edit
  equals its \<open>createdAt\<close>, and the ``Updated'' label of a note is shown exactly when its
  two timestamps differ.
\<close>

theorem timestamps_under_monotone_clock:
  "(\<exists>s'. run xs (s\<lparr>notes := map to_js ns\<rparr>)
           = Inr (s'\<lparr>notes := map to_js (notes_after_all xs ns)\<rparr>))
   \<and> ((\<forall>n \<in> set ns. ts_le (createdAt n) (updatedAt n) \<and> ts_le (createdAt n) start)
        \<and> sorted (start # List.map_filter reading xs)
      \<longrightarrow> list_all timestamps_ordered (map to_js (notes_after_all xs ns)))
   \<and> (\<not> list_ex (edits i) xs
      \<longrightarrow> (\<forall>m \<in> set (notes_after_all xs ns).
             id' m = i \<longrightarrow> m \<in> set ns \<or> createdAt m = updatedAt m))
   \<and> (\<forall>n \<in> set ns. \<forall>m. follow xs n = Some m \<longrightarrow>
         m \<in> set (notes_after_all xs ns)
         \<and> id' m = id' n \<and> createdAt m = createdAt n
         \<and> updatedAt m = (case last_edit (id' n) xs of None \<Rightarrow> updatedAt n | Some t \<Rightarrow> t)
         \<and> (createdAt n = updatedAt n \<longrightarrow>
              isEdited (to_js m)
                = Inr (case last_edit (id' n) xs of None \<Rightarrow> False | Some t \<Rightarrow> t \<noteq> createdAt n)))
   \<and> (\<forall>m \<in> set (notes_after_all xs ns). isEdited (to_js m) = Inr (createdAt m \<noteq> updatedAt m))"
proof -
  have ordered: "(\<forall>n \<in> set ns. ts_le (createdAt n) (updatedAt n) \<and> ts_le (createdAt n) start)
        \<and> sorted (start # List.map_filter reading xs)
      \<longrightarrow> list_all timestamps_ordered (map to_js (notes_after_all xs ns))"
    using ordered_after [of ns start xs]
    by (simp add: list_all_iff timestamps_ordered_to_js ts_le_def)
  have followed: "\<forall>n \<in> set ns. \<forall>m. follow xs n = Some m \<longrightarrow>
         m \<in> set (notes_after_all xs ns)
         \<and> id' m = id' n \<and> createdAt m = createdAt n
         \<and> updatedAt m = (case last_edit (id' n) xs of None \<Rightarrow> updatedAt n | Some t \<Rightarrow> t)
         \<and> (createdAt n = updatedAt n \<longrightarrow>
              isEdited (to_js m)
                = Inr (case last_edit (id' n) xs of None \<Rightarrow> False | Some t \<Rightarrow> t \<noteq> createdAt n))"
  proof (intro ballI allI impI)
    fix n m
    assume n: "n \<in> set ns" and f: "follow xs n = Some m"
    have mem: "m \<in> set (notes_after_all xs ns)" using n f by (rule follow_member)
    have fields: "id' m = id' n \<and> createdAt m = createdAt n
        \<and> updatedAt m = (case last_edit (id' n) xs of None \<Rightarrow> updatedAt n | Some t \<Rightarrow> t)"
      using f by (rule follow_fields)
    have "createdAt n = updatedAt n \<longrightarrow>
            isEdited (to_js m)
              = Inr (case last_edit (id' n) xs of None \<Rightarrow> False | Some t \<Rightarrow> t \<noteq> createdAt n)"
      using fields by (auto simp: isEdited_to_js split: option.splits)
    then show "m \<in> set (notes_after_all xs ns)
         \<and> id' m = id' n \<and> createdAt m = createdAt n
         \<and> updatedAt m = (case last_edit (id' n) xs of None \<Rightarrow> updatedAt n | Some t \<Rightarrow> t)
         \<and> (createdAt n = updatedAt n \<longrightarrow>
              isEdited (to_js m)
                = Inr (case last_edit (id' n) xs of None \<Rightarrow> False | Some t \<Rightarrow> t \<noteq> createdAt n))"
      using mem fields by blast
  qed
  have run_ok: "\<exists>s'. run xs (s\<lparr>notes := map to_js ns\<rparr>)
           = Inr (s'\<lparr>notes := map to_js (notes_after_all xs ns)\<rparr>)"
    by (rule run_to_js)
  have unedited: "\<not> list_ex (edits i) xs
      \<longrightarrow> (\<forall>m \<in> set (notes_after_all xs ns).
             id' m = i \<longrightarrow> m \<in> set ns \<or> createdAt m = updatedAt m)"
    using unedited_after [of i xs ns] by blast
  have badge: "\<forall>m \<in> set (notes_after_all xs ns).
      isEdited (to_js m) = Inr (createdAt m \<noteq> updatedAt m)"
    by (simp add: isEdited_to_js)
  show ?thesis
    using run_ok ordered unedited followed badge by blast
qed

theorem timestamps_under_monotone_clock_witness:
  "ts_le (str ''2025-01-01T10:00:00.000Z'') (str ''2025-01-01T10:00:00.000Z'')
   \<and> ts_le (str ''2025-01-01T10:00:00.000Z'') (str ''2025-01-01T10:00:30.000Z'')
   \<and> sorted [str ''2025-01-01T10:00:30.000Z'', str ''2025-01-01T10:01:00.000Z'',
             str ''2025-01-01T10:05:00.000Z'']
   \<and> \<not> list_ex (edits (str ''1735725660000-k2j9xq''))
      [Create \<lparr>now_iso = str ''2025-01-01T10:01:00.000Z'', date_now = str ''1735725660000'',
               random36 = str ''0.k2j9xq1c8d''\<rparr>
              \<lparr>form_values.title = str ''Taxes'',
               form_values.content = Some (str ''file by April'')\<rparr>,
       Update (str ''2025-01-01T10:05:00.000Z'') (str ''1735725600000-4fzyo8'')
              \<lparr>form_values.title = str ''Groceries'',
               form_values.content = Some (str '' milk, eggs, bread'')\<rparr>]
   \<and> run
      [Create \<lparr>now_iso = str ''2025-01-01T10:01:00.000Z'', date_now = str ''1735725660000'',
               random36 = str ''0.k2j9xq1c8d''\<rparr>
              \<lparr>form_values.title = str ''Taxes'',
               form_values.content = Some (str ''file by April'')\<rparr>,
       Update (str ''2025-01-01T10:05:00.000Z'') (str ''1735725600000-4fzyo8'')
              \<lparr>form_values.title = str ''Groceries'',
               form_values.content = Some (str '' milk, eggs, bread'')\<rparr>]
      (init_state\<lparr>notes := map to_js
         [\<lparr>id' = str ''1735725600000-4fzyo8'', title = str ''Groceries'',
           content = str ''milk, eggs'',
           createdAt = str ''2025-01-01T10:00:00.000Z'',
           updatedAt = str ''2025-01-01T10:00:00.000Z''\<rparr>]\<rparr>)
     = Inr (init_state\<lparr>notes := map to_js
         [\<lparr>id' = str ''1735725660000-k2j9xq'', title = str ''Taxes'',
           content = str ''file by April'',
           createdAt = str ''2025-01-01T10:01:00.000Z'',
           updatedAt = str ''2025-01-01T10:01:00.000Z''\<rparr>,
          \<lparr>id' = str ''1735725600000-4fzyo8'', title = str ''Groceries'',
           content = str ''milk, eggs, bread'',
           createdAt = str ''2025-01-01T10:00:00.000Z'',
           updatedAt = str ''2025-01-01T10:05:00.000Z''\<rparr>]\<rparr>)
   \<and> list_all timestamps_ordered (map to_js
         [\<lparr>id' = str ''1735725660000-k2j9xq'', title = str ''Taxes'',
           content = str ''file by April'',
           createdAt = str ''2025-01-01T10:01:00.000Z'',
           updatedAt = str ''2025-01-01T10:01:00.000Z''\<rparr>,
          \<lparr>id' = str ''1735725600000-4fzyo8'', title = str ''Groceries'',
           content = str ''milk, eggs, bread'',
           createdAt = str ''2025-01-01T10:00:00.000Z'',
           updatedAt = str ''2025-01-01T10:05:00.000Z''\<rparr>])
   \<and> follow
      [Create \<lparr>now_iso = str ''2025-01-01T10:01:00.000Z'', date_now = str ''1735725660000'',
               random36 = str ''0.k2j9xq1c8d''\<rparr>
              \<lparr>form_values.title = str ''Taxes'',
               form_values.content = Some (str ''file by April'')\<rparr>,
       Update (str ''2025-01-01T10:05:00.000Z'') (str ''1735725600000-4fzyo8'')
              \<lparr>form_values.title = str ''Groceries'',
               form_values.content = Some (str '' milk, eggs, bread'')\<rparr>]
          \<lparr>id' = str ''1735725600000-4fzyo8'', title = str ''Groceries'',
           content = str ''milk, eggs'',
           createdAt = str ''2025-01-01T10:00:00.000Z'',
           updatedAt = str ''2025-01-01T10:00:00.000Z''\<rparr>
     = Some
          \<lparr>id' = str ''1735725600000-4fzyo8'', title = str ''Groceries'',
           content = str ''milk, eggs, bread'',
           createdAt = str ''2025-01-01T10:00:00.000Z'',
           updatedAt = str ''2025-01-01T10:05:00.000Z''\<rparr>
   \<and> last_edit (str ''1735725600000-4fzyo8'')
      [Create \<lparr>now_iso = str ''2025-01-01T10:01:00.000Z'', date_now = str ''1735725660000'',
               random36 = str ''0.k2j9xq1c8d''\<rparr>
              \<lparr>form_values.title = str ''Taxes'',
               form_values.content = Some (str ''file by April'')\<rparr>,
       Update (str ''2025-01-01T10:05:00.000Z'') (str ''1735725600000-4fzyo8'')
              \<lparr>form_values.title = str ''Groceries'',
               form_values.content = Some (str '' milk, eggs, bread'')\<rparr>]
     = Some (str ''2025-01-01T10:05:00.000Z'')
   \<and> isEdited (to_js
          \<lparr>id' = str ''1735725660000-k2j9xq'', title = str ''Taxes'',
           content = str ''file by April'',
           createdAt = str ''2025-01-01T10:01:00.000Z'',
           updatedAt = str ''2025-01-01T10:01:00.000Z''\<rparr>) = Inr False
   \<and> isEdited (to_js
          \<lparr>id' = str ''1735725600000-4fzyo8'', title = str ''Groceries'',
           content = str ''milk, eggs, bread'',
           createdAt = str ''2025-01-01T10:00:00.000Z'',
           updatedAt = str ''2025-01-01T10:05:00.000Z''\<rparr>) = Inr True"
  using timestamps_under_monotone_clock [where s = init_state
      and start = "str ''2025-01-01T10:00:30.000Z''" and i = "str ''1735725660000-k2j9xq''"
      and ns =
        "[\<lparr>id' = str ''1735725600000-4fzyo8'', title = str ''Groceries'',
           content = str ''milk, eggs'',
           createdAt = str ''2025-01-01T10:00:00.000Z'',
           updatedAt = str ''2025-01-01T10:00:00.000Z''\<rparr>]"
      and xs =
     "[Create \<lparr>now_iso = str ''2025-01-01T10:01:00.000Z'', date_now = str ''1735725660000'',
               random36 = str ''0.k2j9xq1c8d''\<rparr>
              \<lparr>form_values.title = str ''Taxes'',
               form_values.content = Some (str ''file by April'')\<rparr>,
       Update (str ''2025-01-01T10:05:00.000Z'') (str ''1735725600000-4fzyo8'')
              \<lparr>form_values.title = str ''Groceries'',
               form_values.content = Some (str '' milk, eggs, bread'')\<rparr>]"]
  by (simp add: created_note_def edit_note_def ts_le_def timestamps_ordered_def isEdited_def
      handleCreate_def handleUpdate_def update_note_def init_state_def to_js_def uid_def
      slice_def trim_def is_ws_def content_or_empty_def str_def Let_def)

text \<open>
  The invariant fails when the clock is set back: a note created and then edited at an
  earlier reading has its \<open>updatedAt\<close> before its \<open>createdAt\<close>.  And the timestamps of an
  edited note need not differ: a note edited at the reading at which it was created has
  equal timestamps and shows no ``Updated'' label.
\<close>

theorem timestamps_clock_set_back:
  "run
      [Create \<lparr>now_iso = str ''2025-01-01T10:00:00.000Z'', date_now = str ''1735725600000'',
               random36 = str ''0.4fzyo82mvyr''\<rparr>
              \<lparr>form_values.title = str ''  Groceries '',
               form_values.content = Some (str ''milk, eggs '')\<rparr>,
       Update (str ''2025-01-01T09:59:59.000Z'') (str ''1735725600000-4fzyo8'')
              \<lparr>form_values.title = str ''Groceries'',
               form_values.content = Some (str '' milk, eggs, bread'')\<rparr>]
      init_state
     = Inr (init_state\<lparr>notes := [to_js
          \<lparr>id' = str ''1735725600000-4fzyo8'', title = str ''Groceries'',
           content = str ''milk, eggs, bread'',
           createdAt = str ''2025-01-01T10:00:00.000Z'',
           updatedAt = str ''2025-01-01T09:59:59.000Z''\<rparr>]\<rparr>)
   \<and> \<not> timestamps_ordered (to_js
          \<lparr>id' = str ''1735725600000-4fzyo8'', title = str ''Groceries'',
           content = str ''milk, eggs, bread'',
           createdAt = str ''2025-01-01T10:00:00.000Z'',
           updatedAt = str ''2025-01-01T09:59:59.000Z''\<rparr>)
   \<and> run
      [Create \<lparr>now_iso = str ''2025-01-01T10:00:00.000Z'', date_now = str ''1735725600000'',
               random36 = str ''0.4fzyo82mvyr''\<rparr>
              \<lparr>form_values.title = str ''  Groceries '',
               form_values.content = Some (str ''milk, eggs '')\<rparr>,
       Update (str ''2025-01-01T10:00:00.000Z'') (str ''1735725600000-4fzyo8'')
              \<lparr>form_values.title = str ''Groceries'',
               form_values.content = Some (str '' milk, eggs, bread'')\<rparr>]
      init_state
     = Inr (init_state\<lparr>notes := [to_js
          \<lparr>id' = str ''1735725600000-4fzyo8'', title = str ''Groceries'',
           content = str ''milk, eggs, bread'',
           createdAt = str ''2025-01-01T10:00:00.000Z'',
           updatedAt = str ''2025-01-01T10:00:00.000Z''\<rparr>]\<rparr>)
   \<and> list_ex (edits (str ''1735725600000-4fzyo8''))
      [Create \<lparr>now_iso = str ''2025-01-01T10:00:00.000Z'', date_now = str ''1735725600000'',
               random36 = str ''0.4fzyo82mvyr''\<rparr>
              \<lparr>form_values.title = str ''  Groceries '',
               form_values.content = Some (str ''milk, eggs '')\<rparr>,
       Update (str ''2025-01-01T10:00:00.000Z'') (str ''1735725600000-4fzyo8'')
              \<lparr>form_values.title = str ''Groceries'',
               form_values.content = Some (str '' milk, eggs, bread'')\<rparr>]
   \<and> isEdited (to_js
          \<lparr>id' = str ''1735725600000-4fzyo8'', title = str ''Groceries'',
           content = str ''milk, eggs, bread'',
           createdAt = str ''2025-01-01T10:00:00.000Z'',
           updatedAt = str ''2025-01-01T10:00:00.000Z''\<rparr>) = Inr False"
  by (simp add: created_note_def edit_note_def ts_le_def timestamps_ordered_def isEdited_def
      handleCreate_def handleUpdate_def update_note_def init_state_def to_js_def uid_def
      slice_def trim_def is_ws_def content_or_empty_def str_def Let_def)

subsection \<open>Hydration\<close>

text \<open>
  C7.  Hydration at startup yields the parsed value when the stored payload parses as a
  JSON array and the empty collection in every other case (storage that cannot be read,
  absent key, parse failure, a payload that parses to something else); it is a total
  function into states, so no error surfaces.  \<open>parse\<close> is any function that, like
  \<^verbatim>\<open>JSON.parse\<close>, rejects the empty text.
\<close>

theorem hydrate_array_or_empty:
  assumes "parse [] = Inl SyntaxError"
  shows "hydrate parse st init_state =
           init_state\<lparr>notes :=
             (case getItem st storage_key of
                Inr (Some raw) \<Rightarrow> (case parse raw of Inr (JArr xs) \<Rightarrow> xs | _ \<Rightarrow> [])
              | _ \<Rightarrow> [])\<rparr>"
  using assms
  by (auto simp: hydrate_def init_state_def split: sum.splits option.splits jsval.splits)

theorem hydrate_array_or_empty_witness:
  \<open>JSON_parse (\<lambda>lit. lit) [] = Inl SyntaxError
   \<and> hydrate (JSON_parse (\<lambda>lit. lit)) Unavailable init_state = init_state
   \<and> hydrate (JSON_parse (\<lambda>lit. lit)) (Store Map.empty) init_state = init_state
   \<and> hydrate (JSON_parse (\<lambda>lit. lit))
         (Store [storage_key \<mapsto> str ''[{"id":"1","title":'']) init_state = init_state
   \<and> hydrate (JSON_parse (\<lambda>lit. lit))
         (Store [storage_key \<mapsto> str ''{"id":"1","title":"Taxes"}'']) init_state = init_state
   \<and> hydrate (JSON_parse (\<lambda>lit. lit))
         (Store [storage_key \<mapsto> str ''[{"id":"1","title":"Taxes"}]'']) init_state
       = init_state\<lparr>notes := [JObj [(str ''id'', JStr (str ''1'')),
                                        (str ''title'', JStr (str ''Taxes''))]]\<rparr>\<close>
proof -
  have h: "JSON_parse (\<lambda>lit. lit) [] = Inl SyntaxError"
    by (simp add: json_eval)
  show ?thesis
    using h
      hydrate_array_or_empty [where parse = "JSON_parse (\<lambda>lit. lit)" and st = Unavailable, OF h]
      hydrate_array_or_empty [where parse = "JSON_parse (\<lambda>lit. lit)" and st = "Store Map.empty", OF h]
      hydrate_array_or_empty [where parse = "JSON_parse (\<lambda>lit. lit)" and st =
        \<open>Store [storage_key \<mapsto> str ''[{"id":"1","title":'']\<close>, OF h]
      hydrate_array_or_empty [where parse = "JSON_parse (\<lambda>lit. lit)" and st =
        \<open>Store [storage_key \<mapsto> str ''{"id":"1","title":"Taxes"}'']\<close>, OF h]
      hydrate_array_or_empty [where parse = "JSON_parse (\<lambda>lit. lit)" and st =
        \<open>Store [storage_key \<mapsto> str ''[{"id":"1","title":"Taxes"}]'']\<close>, OF h]
    by (simp add: json_eval init_state_def storage_key_def str_def)
qed

text \<open>
  C9.  If the stored payload parses as a JSON array, hydration adopts that array verbatim,
  with no validation of the elements: \<open>xs\<close> is any list of values.
\<close>

theorem hydrate_no_validation:
  assumes "getItem st storage_key = Inr (Some raw)" and "raw \<noteq> []"
    and "parse raw = Inr (JArr xs)"
  shows "hydrate parse st s = s\<lparr>notes := xs\<rparr>"
  using assms by (simp add: hydrate_def)

theorem hydrate_no_validation_witness:
  \<open>getItem (Store [storage_key \<mapsto> str ''[null, "x", 5, {"title": 7}, []]'']) storage_key
     = Inr (Some (str ''[null, "x", 5, {"title": 7}, []]''))
   \<and> str ''[null, "x", 5, {"title": 7}, []]'' \<noteq> []
   \<and> JSON_parse (\<lambda>lit. lit) (str ''[null, "x", 5, {"title": 7}, []]'')
       = Inr (JArr [JNull, JStr (str ''x''), JNum (str ''5''),
                    JObj [(str ''title'', JNum (str ''7''))], JArr []])
   \<and> hydrate (JSON_parse (\<lambda>lit. lit))
         (Store [storage_key \<mapsto> str ''[null, "x", 5, {"title": 7}, []]'']) init_state
       = init_state\<lparr>notes := [JNull, JStr (str ''x''), JNum (str ''5''),
                                  JObj [(str ''title'', JNum (str ''7''))], JArr []]\<rparr>\<close>
proof -
  have g: \<open>getItem (Store [storage_key \<mapsto> str ''[null, "x", 5, {"title": 7}, []]'']) storage_key
             = Inr (Some (str ''[null, "x", 5, {"title": 7}, []]''))\<close>
    by simp
  have n: \<open>str ''[null, "x", 5, {"title": 7}, []]'' \<noteq> []\<close>
    by (simp add: str_def)
  have p: \<open>JSON_parse (\<lambda>lit. lit) (str ''[null, "x", 5, {"title": 7}, []]'')
             = Inr (JArr [JNull, JStr (str ''x''), JNum (str ''5''),
                          JObj [(str ''title'', JNum (str ''7''))], JArr []])\<close>
    by (simp add: json_eval str_def)
  show ?thesis
    using g n p
      hydrate_no_validation [where parse = "JSON_parse (\<lambda>lit. lit)" and s = init_state, OF g n p]
    by simp
qed

subsection \<open>Persistence round trip\<close>

text \<open>
  C6.  For every collection of notes, serialising it to storage (a write that the storage
  accepts) and hydrating from the stored string yields the same collection: the same
  notes with the same field values in the same order.
\<close>

theorem persist_then_hydrate:
  assumes "fits (JSON_stringify (JArr (map to_js ns)))"
  shows "hydrate (JSON_parse num)
           (persist fits JSON_stringify (Store m) (s\<lparr>notes := map to_js ns\<rparr>)) s0
         = s0\<lparr>notes := map to_js ns\<rparr>"
proof -
  let ?text = "JSON_stringify (JArr (map to_js ns))"
  have st: "persist fits JSON_stringify (Store m) (s\<lparr>notes := map to_js ns\<rparr>)
              = Store (m(storage_key \<mapsto> ?text))"
    using assms by (simp add: persist_def)
  have ne: "?text \<noteq> []"
    by (simp add: JSON_stringify_notes)
  show ?thesis
    unfolding st
    by (simp add: hydrate_def ne JSON_parse_stringify_notes)
qed

theorem persist_then_hydrate_witness:
  \<open>length (JSON_stringify (JArr (map to_js
        [\<lparr>id' = str ''1735725660000-k2j9xq'', title = str ''Taxes'',
            content = str ''file by April'',
            createdAt = str ''2025-01-01T10:01:00.000Z'',
            updatedAt = str ''2025-01-01T10:01:00.000Z''\<rparr>,
         \<lparr>id' = str ''1735725600000-4fzyo8'', title = str ''Groceries'',
            content = str ''milk, eggs'',
            createdAt = str ''2025-01-01T10:00:00.000Z'',
            updatedAt = str ''2025-01-01T10:00:00.000Z''\<rparr>]))) \<le> 5242880
   \<and> hydrate (JSON_parse (\<lambda>lit. lit))
         (persist (\<lambda>v. length v \<le> 5242880) JSON_stringify (Store Map.empty)
            (init_state\<lparr>notes := map to_js
        [\<lparr>id' = str ''1735725660000-k2j9xq'', title = str ''Taxes'',
            content = str ''file by April'',
            createdAt = str ''2025-01-01T10:01:00.000Z'',
            updatedAt = str ''2025-01-01T10:01:00.000Z''\<rparr>,
         \<lparr>id' = str ''1735725600000-4fzyo8'', title = str ''Groceries'',
            content = str ''milk, eggs'',
            createdAt = str ''2025-01-01T10:00:00.000Z'',
            updatedAt = str ''2025-01-01T10:00:00.000Z''\<rparr>]\<rparr>))
         init_state
       = init_state\<lparr>notes := map to_js
        [\<lparr>id' = str ''1735725660000-k2j9xq'', title = str ''Taxes'',
            content = str ''file by April'',
            createdAt = str ''2025-01-01T10:01:00.000Z'',
            updatedAt = str ''2025-01-01T10:01:00.000Z''\<rparr>,
         \<lparr>id' = str ''1735725600000-4fzyo8'', title = str ''Groceries'',
            content = str ''milk, eggs'',
            createdAt = str ''2025-01-01T10:00:00.000Z'',
            updatedAt = str ''2025-01-01T10:00:00.000Z''\<rparr>]\<rparr>\<close>
proof -
  have h: \<open>length (JSON_stringify (JArr (map to_js
        [\<lparr>id' = str ''1735725660000-k2j9xq'', title = str ''Taxes'',
            content = str ''file by April'',
            createdAt = str ''2025-01-01T10:01:00.000Z'',
            updatedAt = str ''2025-01-01T10:01:00.000Z''\<rparr>,
         \<lparr>id' = str ''1735725600000-4fzyo8'', title = str ''Groceries'',
            content = str ''milk, eggs'',
            createdAt = str ''2025-01-01T10:00:00.000Z'',
            updatedAt = str ''2025-01-01T10:00:00.000Z''\<rparr>]))) \<le> 5242880\<close>
    by (subst JSON_stringify_notes)
       (simp add: note_text_def member_text_def quote_def quote_unit_def is_high_def is_low_def
          str_def)
  show ?thesis
    using h persist_then_hydrate [where fits = "\<lambda>v. length v \<le> 5242880" and num = "\<lambda>lit. lit"
        and m = Map.empty and s = init_state and ?s0.0 = init_state and ns =
        \<open>[\<lparr>id' = str ''1735725660000-k2j9xq'', title = str ''Taxes'',
            content = str ''file by April'',
            createdAt = str ''2025-01-01T10:01:00.000Z'',
            updatedAt = str ''2025-01-01T10:01:00.000Z''\<rparr>,
          \<lparr>id' = str ''1735725600000-4fzyo8'', title = str ''Groceries'',
            content = str ''milk, eggs'',
            createdAt = str ''2025-01-01T10:00:00.000Z'',
            updatedAt = str ''2025-01-01T10:00:00.000Z''\<rparr>]\<close>, OF h]
    by simp
qed

subsection \<open>Mode exclusivity\<close>

text \<open>
  C8.  The claim is that no sequence of interactions reaches a state with \<^verbatim>\<open>isAdding\<close>
  true and \<^verbatim>\<open>editingId\<close> non-null.  This sequence does: create a note, open its edit
  form, type a query that matches nothing, press the button of the empty state, whose
  callback sets \<^verbatim>\<open>isAdding\<close> and leaves \<^verbatim>\<open>editingId\<close> as it is, and clear the
  query.  In the final state the add form and the edit form of the note are both
  rendered.
\<close>

theorem empty_state_create_keeps_editing:
  "interact ascii_lower
     [ClickEmptyCreate,
      SubmitAdd (str ''Groceries'') (str ''milk, eggs'')
            \<lparr>now_iso = str ''2025-01-01T10:00:00.000Z'', date_now = str ''1735725600000'',
            random36 = str ''0.4fzyo82mvyr''\<rparr>,
      ClickEdit 0,
      ChangeQuery (str ''zzz''),
      ClickEmptyCreate,
      ChangeQuery []]
     init_state
   = Some \<lparr>notes = [to_js
            \<lparr>id' = str ''1735725600000-4fzyo8'', title = str ''Groceries'',
            content = str ''milk, eggs'',
            createdAt = str ''2025-01-01T10:00:00.000Z'',
            updatedAt = str ''2025-01-01T10:00:00.000Z''\<rparr>],
           query = [], isAdding = True,
           editingId = Some (str ''1735725600000-4fzyo8'')\<rparr>"
  by (simp add: step_def filtered_def matches_def init_state_def submit_def handleCreate_def
      well_formed_def is_str_prop_def note_id_def to_js_def uid_def slice_def trim_def is_ws_def
      content_or_empty_def ascii_lower_def str_def Let_def)

end
